theory Spec2Isabelle
  imports Complex_Main "HOL-Library.AList"
begin

section \<open>Python values, exceptions and the environment\<close>

text \<open>
  Values that travel in dictionaries (\<open>Dict[str, Any]\<close>): the JSON-like part of Python.
  A dictionary is an association list in insertion order; \<open>data.get(k)\<close> and \<open>data[k]\<close>
  read the first binding of \<open>k\<close>. Floats are modelled as rationals: the code stores and
  compares them, and its arithmetic on them is exact at the sizes that occur.
\<close>

datatype pyval =
    PNone
  | PBool bool
  | PInt int
  | PFloat rat
  | PStr string
  | PList "pyval list"
  | PDict "(string \<times> pyval) list"

type_synonym pydict = "(string \<times> pyval) list"

datatype exn =
    KeyError string
  | ValueError string
  | Untyped string

text \<open>
  \<open>Untyped k\<close> is not a Python exception: it marks an input whose value under key \<open>k\<close>
  has another type than the annotation of the field it would be stored in. Python would
  store such a value as it is; the typed records below cannot hold it.
\<close>

text \<open>
  \<open>copy.deepcopy\<close>, which \<open>dataclasses.asdict\<close> applies to the value of every field:
  a list or a dictionary is rebuilt from the copies of its elements, an atom is returned.
\<close>

fun deepcopy :: "pyval \<Rightarrow> pyval" where
  "deepcopy (PList xs) = PList (map deepcopy xs)"
| "deepcopy (PDict kvs) = PDict (map (\<lambda>(k, v). (k, deepcopy v)) kvs)"
| "deepcopy v = v"

datatype AgentState =
    INITIALIZING
  | IDLE
  | PROCESSING
  | WAITING_FOR_RESPONSE
  | COLLABORATING
  | ERROR
  | SHUTDOWN

text \<open>
  The environment. \<open>time.time()\<close> reads the clock, \<open>str(uuid.uuid4())\<close> takes the next
  identifier of a stream that is an input of the model. \<open>events\<close> is what an agent does
  that is seen from outside, in the order it happens: each change of state (the line
  that \<open>_change_state\<close> logs, and its call of the state-change callbacks) and each
  \<open>asyncio.sleep\<close> with its duration. \<open>asyncio.sleep(d)\<close> moves the clock forward by
  \<open>d\<close>.
\<close>

datatype event = StateChanged AgentState AgentState | Slept rat

record world =
  clock :: rat
  uuid_stream :: "nat \<Rightarrow> string"
  uuid_count :: nat
  events :: "event list"

definition time_time :: "world \<Rightarrow> rat" where
  "time_time w = clock w"

definition uuid4 :: "world \<Rightarrow> string \<times> world" where
  "uuid4 w = (uuid_stream w (uuid_count w), w\<lparr>uuid_count := Suc (uuid_count w)\<rparr>)"

definition asyncio_sleep :: "rat \<Rightarrow> world \<Rightarrow> world" where
  "asyncio_sleep d w = w\<lparr>clock := clock w + d, events := events w @ [Slept d]\<rparr>"

text \<open>An argument with a \<open>default_factory\<close>: left out by the caller, or given.\<close>

datatype 'a arg = Omitted | Given 'a

section \<open>Messages\<close>

datatype AgentRole = PRODUCT_MANAGER | DEVELOPER | REVIEWER | TESTER | ORCHESTRATOR

datatype MessageType =
    TASK_REQUEST
  | TASK_RESPONSE
  | COLLABORATION_REQUEST
  | STATUS_UPDATE
  | ERROR_REPORT
  | NEGOTIATION
  | CONSENSUS

datatype MessagePriority = LOW | MEDIUM | HIGH | URGENT

fun AgentRole_value :: "AgentRole \<Rightarrow> string" where
  "AgentRole_value PRODUCT_MANAGER = ''pm''"
| "AgentRole_value DEVELOPER = ''dev''"
| "AgentRole_value REVIEWER = ''reviewer''"
| "AgentRole_value TESTER = ''tester''"
| "AgentRole_value ORCHESTRATOR = ''orchestrator''"

fun MessageType_value :: "MessageType \<Rightarrow> string" where
  "MessageType_value TASK_REQUEST = ''task_request''"
| "MessageType_value TASK_RESPONSE = ''task_response''"
| "MessageType_value COLLABORATION_REQUEST = ''collaboration_request''"
| "MessageType_value STATUS_UPDATE = ''status_update''"
| "MessageType_value ERROR_REPORT = ''error_report''"
| "MessageType_value NEGOTIATION = ''negotiation''"
| "MessageType_value CONSENSUS = ''consensus''"

fun MessagePriority_value :: "MessagePriority \<Rightarrow> int" where
  "MessagePriority_value LOW = 1"
| "MessagePriority_value MEDIUM = 2"
| "MessagePriority_value HIGH = 3"
| "MessagePriority_value URGENT = 4"

text \<open>
  \<open>AgentRole(v)\<close>, \<open>MessageType(v)\<close> and \<open>MessagePriority(v)\<close>: the member whose value
  equals \<open>v\<close>, or ValueError. Python's \<open>2.0\<close> and \<open>True\<close> equal the integers \<open>2\<close> and
  \<open>1\<close> and hash like them, so they find a priority too.
\<close>

definition AgentRole_of :: "pyval \<Rightarrow> exn + AgentRole" where
  "AgentRole_of v =
     (case v of
        PStr s \<Rightarrow>
          (case find (\<lambda>r. AgentRole_value r = s)
                  [PRODUCT_MANAGER, DEVELOPER, REVIEWER, TESTER, ORCHESTRATOR] of
             Some r \<Rightarrow> Inr r
           | None \<Rightarrow> Inl (ValueError ''AgentRole''))
      | _ \<Rightarrow> Inl (ValueError ''AgentRole''))"

definition MessageType_of :: "pyval \<Rightarrow> exn + MessageType" where
  "MessageType_of v =
     (case v of
        PStr s \<Rightarrow>
          (case find (\<lambda>t. MessageType_value t = s)
                  [TASK_REQUEST, TASK_RESPONSE, COLLABORATION_REQUEST, STATUS_UPDATE,
                   ERROR_REPORT, NEGOTIATION, CONSENSUS] of
             Some t \<Rightarrow> Inr t
           | None \<Rightarrow> Inl (ValueError ''MessageType''))
      | _ \<Rightarrow> Inl (ValueError ''MessageType''))"

fun number_of :: "pyval \<Rightarrow> rat option" where
  "number_of (PInt n) = Some (of_int n)"
| "number_of (PFloat q) = Some q"
| "number_of (PBool b) = Some (if b then 1 else 0)"
| "number_of _ = None"

definition MessagePriority_of :: "pyval \<Rightarrow> exn + MessagePriority" where
  "MessagePriority_of v =
     (case number_of v of
        Some q \<Rightarrow>
          (case find (\<lambda>p. of_int (MessagePriority_value p) = q) [LOW, MEDIUM, HIGH, URGENT] of
             Some p \<Rightarrow> Inr p
           | None \<Rightarrow> Inl (ValueError ''MessagePriority''))
      | None \<Rightarrow> Inl (ValueError ''MessagePriority''))"

text \<open>
  The dataclass \<open>Message\<close>. \<open>id\<close>, \<open>timestamp\<close> and \<open>conversation_id\<close> are \<open>Optional\<close>;
  \<open>metadata\<close> is annotated \<open>Dict[str, Any]\<close>, but nothing checks the annotation, so the
  field holds a dictionary or Python's \<open>None\<close>.
\<close>

record Message =
  sender :: AgentRole
  recipient :: AgentRole
  message_type :: MessageType
  content :: string
  id_msg :: "string option"
  priority :: MessagePriority
  timestamp :: "rat option"
  metadata :: "pydict option"
  requires_response :: bool
  conversation_id :: "string option"

text \<open>
  \<open>__post_init__\<close>: the timestamp, the id and the conversation id are generated, in this
  order, where they are \<open>None\<close>. The metadata is left as it is.
\<close>

definition post_init :: "world \<Rightarrow> Message \<Rightarrow> Message \<times> world" where
  "post_init w m =
     (let m1 = (if timestamp m = None then m\<lparr>timestamp := Some (time_time w)\<rparr> else m);
          (m2, w2) = (if id_msg m1 = None
                      then (let (u, w') = uuid4 w in (m1\<lparr>id_msg := Some u\<rparr>, w'))
                      else (m1, w));
          (m3, w3) = (if conversation_id m2 = None
                      then (let (u, w') = uuid4 w2 in (m2\<lparr>conversation_id := Some u\<rparr>, w'))
                      else (m2, w2))
      in (m3, w3))"

text \<open>
  The generated \<open>__init__\<close> followed by \<open>__post_init__\<close>. A left-out \<open>metadata\<close> is
  built by the \<open>default_factory\<close> (\<open>dict\<close>); a given one is stored, \<open>None\<close> included.
\<close>

definition Message_init ::
  "world \<Rightarrow> AgentRole \<Rightarrow> AgentRole \<Rightarrow> MessageType \<Rightarrow> string \<Rightarrow> string option \<Rightarrow>
   MessagePriority \<Rightarrow> rat option \<Rightarrow> pydict option arg \<Rightarrow> bool \<Rightarrow> string option \<Rightarrow>
   Message \<times> world" where
  "Message_init w snd_role rcp_role mtype body mid prio ts meta rr cid =
     post_init w
       \<lparr>sender = snd_role, recipient = rcp_role, message_type = mtype, content = body,
        id_msg = mid, priority = prio, timestamp = ts,
        metadata = (case meta of Omitted \<Rightarrow> Some [] | Given d \<Rightarrow> d),
        requires_response = rr, conversation_id = cid\<rparr>"

fun opt_str :: "string option \<Rightarrow> pyval" where
  "opt_str None = PNone"
| "opt_str (Some s) = PStr s"

fun opt_float :: "rat option \<Rightarrow> pyval" where
  "opt_float None = PNone"
| "opt_float (Some t) = PFloat t"

fun opt_dict :: "pydict option \<Rightarrow> pyval" where
  "opt_dict None = PNone"
| "opt_dict (Some d) = PDict d"

text \<open>
  \<open>to_dict\<close>: \<open>asdict(self)\<close> lists the fields in declaration order, each value copied;
  the four enum-valued keys are then overwritten, in place, by the members' values.
\<close>

definition to_dict :: "Message \<Rightarrow> pydict" where
  "to_dict m =
     [(''sender'', PStr (AgentRole_value (sender m))),
      (''recipient'', PStr (AgentRole_value (recipient m))),
      (''message_type'', PStr (MessageType_value (message_type m))),
      (''content'', deepcopy (PStr (content m))),
      (''id'', deepcopy (opt_str (id_msg m))),
      (''priority'', PInt (MessagePriority_value (priority m))),
      (''timestamp'', deepcopy (opt_float (timestamp m))),
      (''metadata'', deepcopy (opt_dict (metadata m))),
      (''requires_response'', deepcopy (PBool (requires_response m))),
      (''conversation_id'', deepcopy (opt_str (conversation_id m)))]"

text \<open>
  Sequencing with exceptions: the first step that raises ends the computation with its
  exception, otherwise the next step receives the value.
\<close>

definition attempt :: "'e + 'a \<Rightarrow> ('a \<Rightarrow> 'e + 'b) \<Rightarrow> 'e + 'b" where
  "attempt r f = (case r of Inl e \<Rightarrow> Inl e | Inr v \<Rightarrow> f v)"

text \<open>\<open>data[k]\<close> raises KeyError on a missing key; \<open>data.get(k, d)\<close> answers \<open>d\<close>.\<close>

definition subscript :: "pydict \<Rightarrow> string \<Rightarrow> exn + pyval" where
  "subscript d k = (case map_of d k of None \<Rightarrow> Inl (KeyError k) | Some v \<Rightarrow> Inr v)"

definition dict_get :: "pydict \<Rightarrow> string \<Rightarrow> pyval \<Rightarrow> pyval" where
  "dict_get d k dflt = (case map_of d k of None \<Rightarrow> dflt | Some v \<Rightarrow> v)"

fun as_opt_str :: "string \<Rightarrow> pyval \<Rightarrow> exn + string option" where
  "as_opt_str k PNone = Inr None"
| "as_opt_str k (PStr s) = Inr (Some s)"
| "as_opt_str k _ = Inl (Untyped k)"

fun as_str :: "string \<Rightarrow> pyval \<Rightarrow> exn + string" where
  "as_str k (PStr s) = Inr s"
| "as_str k _ = Inl (Untyped k)"

fun as_opt_float :: "string \<Rightarrow> pyval \<Rightarrow> exn + rat option" where
  "as_opt_float k PNone = Inr None"
| "as_opt_float k (PFloat t) = Inr (Some t)"
| "as_opt_float k (PInt n) = Inr (Some (of_int n))"
| "as_opt_float k _ = Inl (Untyped k)"

fun as_bool :: "string \<Rightarrow> pyval \<Rightarrow> exn + bool" where
  "as_bool k (PBool b) = Inr b"
| "as_bool k _ = Inl (Untyped k)"

text \<open>
  \<open>from_dict\<close>. The metadata is read first: anything that is not a dictionary (a missing
  key reads as \<open>None\<close>) becomes the empty dictionary. The arguments of \<open>cls(...)\<close> are
  evaluated in the order written, so the first failing one decides the exception.
\<close>

definition from_dict :: "world \<Rightarrow> pydict \<Rightarrow> exn + (Message \<times> world)" where
  "from_dict w data =
     (let raw_metadata = dict_get data ''metadata'' PNone;
          meta = (case raw_metadata of PDict d \<Rightarrow> d | _ \<Rightarrow> [])
      in attempt (subscript data ''id'') (\<lambda>v_id.
         attempt (as_opt_str ''id'' v_id) (\<lambda>mid.
         attempt (subscript data ''sender'') (\<lambda>v_s.
         attempt (AgentRole_of v_s) (\<lambda>s.
         attempt (subscript data ''recipient'') (\<lambda>v_r.
         attempt (AgentRole_of v_r) (\<lambda>r.
         attempt (subscript data ''message_type'') (\<lambda>v_t.
         attempt (MessageType_of v_t) (\<lambda>t.
         attempt (subscript data ''content'') (\<lambda>v_c.
         attempt (as_str ''content'' v_c) (\<lambda>c.
         attempt (subscript data ''priority'') (\<lambda>v_p.
         attempt (MessagePriority_of v_p) (\<lambda>p.
         attempt (subscript data ''timestamp'') (\<lambda>v_ts.
         attempt (as_opt_float ''timestamp'' v_ts) (\<lambda>ts.
         attempt (as_bool ''requires_response''
                (dict_get data ''requires_response'' (PBool False))) (\<lambda>rr.
         attempt (as_opt_str ''conversation_id''
                (dict_get data ''conversation_id'' PNone)) (\<lambda>cid.
         Inr (Message_init w s r t c mid p ts (Given (Some meta)) rr cid))))))))))))))))))"

section \<open>Conversation threads\<close>

record ConversationThread =
  id_thread :: string
  participants :: "AgentRole list"
  messages :: "Message list"
  created_at :: rat
  status :: string

text \<open>
  Python's \<open>xs[a:]\<close> for an integer \<open>a\<close>: a negative start counts from the end and is
  clamped at the front, a start beyond the end gives the empty list.
\<close>

definition slice_from :: "'a list \<Rightarrow> int \<Rightarrow> 'a list" where
  "slice_from xs a =
     (let n = int (length xs);
          start = (if a < 0 then max (n + a) 0 else min a n)
      in drop (nat start) xs)"

definition add_message :: "ConversationThread \<Rightarrow> Message \<Rightarrow> ConversationThread" where
  "add_message th m =
     th\<lparr>messages := messages th @ [m\<lparr>conversation_id := Some (id_thread th)\<rparr>]\<rparr>"

definition get_context :: "ConversationThread \<Rightarrow> int \<Rightarrow> Message list" where
  "get_context th limit = slice_from (messages th) (- limit)"

section \<open>The communication hub\<close>

text \<open>
  Callbacks are code of the caller. The model keeps what the hub sees of a call: whether
  it returned (\<open>True\<close>) or raised (\<open>False\<close>). A broadcast observer is such a callback,
  or the closure \<open>response_handler\<close> that \<open>send_request\<close> installs, which closes over
  the recipient and the id of the request. That closure is a plain function: the loop's
  \<open>await\<close> of its result \<open>None\<close> raises TypeError after the closure has run, and the
  loop swallows it.
\<close>

type_synonym callback = "Message \<Rightarrow> bool"

datatype observer =
    Observer callback
  | ResponseHandler AgentRole "string option"

fun observer_returns :: "observer \<Rightarrow> Message \<Rightarrow> bool" where
  "observer_returns (Observer f) m = f m"
| "observer_returns (ResponseHandler r i) m = False"

text \<open>The test of \<open>response_handler\<close>: does this message resolve the pending request?\<close>

fun resolves :: "observer \<Rightarrow> Message \<Rightarrow> bool" where
  "resolves (Observer f) m = False"
| "resolves (ResponseHandler r i) m =
     (sender m = r \<and>
      dict_get (case metadata m of None \<Rightarrow> [] | Some d \<Rightarrow> d) ''response_to'' PNone = opt_str i)"

record Negotiation =
  id_negotiation :: string
  participants_negotiation :: "AgentRole list"
  topic :: string
  data_negotiation :: pydict
  proposals :: "pyval list"
  status_negotiation :: string
  created_at_negotiation :: rat

text \<open>
  \<open>message_queue\<close> is an \<open>asyncio.Queue\<close>: \<open>put\<close> appends at the back, \<open>get\<close> takes
  from the front. Its items are the pairs \<open>(message.priority.value, message)\<close>.
  The dictionary \<open>delivery_stats\<close> has three fixed keys, here three fields.
\<close>

record CommunicationHub =
  message_queue :: "(int \<times> Message) list"
  subscribers :: "(AgentRole \<times> callback) list"
  broadcast_subscribers :: "observer list"
  conversations :: "(string \<times> ConversationThread) list"
  active_negotiations :: "(string \<times> Negotiation) list"
  message_history :: "Message list"
  total_sent :: int
  total_delivered :: int
  total_failed :: int
  is_running :: bool
  processing_task :: bool

definition CommunicationHub_init :: CommunicationHub where
  "CommunicationHub_init =
     \<lparr>message_queue = [], subscribers = [], broadcast_subscribers = [],
      conversations = [], active_negotiations = [], message_history = [],
      total_sent = 0, total_delivered = 0, total_failed = 0,
      is_running = False, processing_task = False\<rparr>"

definition start :: "CommunicationHub \<Rightarrow> CommunicationHub" where
  "start h = (if is_running h then h else h\<lparr>is_running := True, processing_task := True\<rparr>)"

definition stop :: "CommunicationHub \<Rightarrow> CommunicationHub" where
  "stop h = h\<lparr>is_running := False\<rparr>"

definition subscribe :: "CommunicationHub \<Rightarrow> AgentRole \<Rightarrow> callback \<Rightarrow> CommunicationHub" where
  "subscribe h r cb = h\<lparr>subscribers := AList.update r cb (subscribers h)\<rparr>"

definition subscribe_to_all :: "CommunicationHub \<Rightarrow> observer \<Rightarrow> CommunicationHub" where
  "subscribe_to_all h ob = h\<lparr>broadcast_subscribers := broadcast_subscribers h @ [ob]\<rparr>"

text \<open>
  \<open>_track_conversation\<close>. The conversation id is the message's, or a fresh one when it
  is \<open>None\<close> or the empty string (\<open>or\<close> tests truth). \<open>add_message\<close> writes the thread's
  id into the message object. The result is the new conversation table, the message as
  \<open>add_message\<close> left it, and the environment.
\<close>

definition track_conversation ::
  "world \<Rightarrow> CommunicationHub \<Rightarrow> Message \<Rightarrow>
   (string \<times> ConversationThread) list \<times> Message \<times> world" where
  "track_conversation w h m =
     (let (cid, w1) = (case conversation_id m of
                         None \<Rightarrow> uuid4 w
                       | Some c \<Rightarrow> if c = [] then uuid4 w else (c, w));
          created = (case timestamp m of None \<Rightarrow> time_time w1 | Some t \<Rightarrow> t);
          th = (case map_of (conversations h) cid of
                  None \<Rightarrow> \<lparr>id_thread = cid, participants = [sender m, recipient m],
                            messages = [], created_at = created, status = ''active''\<rparr>
                | Some t \<Rightarrow> t);
          th' = add_message th m
      in (AList.update cid th' (conversations h), last (messages th'), w1))"

text \<open>
  \<open>send_message\<close>. \<open>rejects\<close> says of which items the underlying queue refuses the
  \<open>put\<close> by raising: that is the only statement of the \<open>try\<close> block that can fail.
  The queue, the history and the thread hold the same message object, so the
  conversation id that \<open>add_message\<close> writes is seen in all three.
\<close>

definition send_message ::
  "(Message \<Rightarrow> bool) \<Rightarrow> world \<Rightarrow> CommunicationHub \<Rightarrow> Message \<Rightarrow>
   bool \<times> CommunicationHub \<times> world" where
  "send_message rejects w h m =
     (if rejects m
      then (False, h\<lparr>total_failed := total_failed h + 1\<rparr>, w)
      else (let (convs, m', w') = track_conversation w h m
            in (True,
                h\<lparr>message_queue := message_queue h @ [(MessagePriority_value (priority m), m')],
                  message_history := message_history h @ [m'],
                  total_sent := total_sent h + 1,
                  conversations := convs\<rparr>,
                w')))"

text \<open>
  One turn of the dispatch loop on an item taken from the queue. The calls it makes are
  returned with the hub: the recipient's handler if there is one, then every observer
  in registration order, each with its outcome.
\<close>

datatype call =
    HandlerCall AgentRole Message bool
  | ObserverCall nat Message bool

definition deliver :: "CommunicationHub \<Rightarrow> Message \<Rightarrow> CommunicationHub \<times> call list" where
  "deliver h m =
     (let (h1, c1) =
            (case map_of (subscribers h) (recipient m) of
               None \<Rightarrow> (h, [])
             | Some cb \<Rightarrow>
                 if cb m
                 then (h\<lparr>total_delivered := total_delivered h + 1\<rparr>,
                       [HandlerCall (recipient m) m True])
                 else (h\<lparr>total_failed := total_failed h + 1\<rparr>,
                       [HandlerCall (recipient m) m False]));
          c2 = map (\<lambda>(i, ob). ObserverCall i m (observer_returns ob m))
                 (enumerate 0 (broadcast_subscribers h1))
      in (h1, c1 @ c2))"

text \<open>
  \<open>_process_messages\<close>, for a number of turns of its \<open>while\<close> loop: the loop ends when
  the hub is no longer running; a turn with an empty queue is the one-second timeout.
\<close>

fun process_messages :: "nat \<Rightarrow> CommunicationHub \<Rightarrow> CommunicationHub \<times> call list" where
  "process_messages 0 h = (h, [])"
| "process_messages (Suc n) h =
     (if \<not> is_running h then (h, [])
      else (case message_queue h of
              [] \<Rightarrow> process_messages n h
            | (p, m) # q \<Rightarrow>
                (let (h1, c) = deliver (h\<lparr>message_queue := q\<rparr>) m;
                     (h2, cs) = process_messages n h1
                 in (h2, c @ cs))))"

text \<open>The messages handed to recipients' handlers, in the order of the calls.\<close>

fun dispatched :: "call list \<Rightarrow> Message list" where
  "dispatched [] = []"
| "dispatched (HandlerCall r m ok # cs) = m # dispatched cs"
| "dispatched (ObserverCall i m ok # cs) = dispatched cs"

text \<open>
  \<open>send_request\<close>. What the \<open>await\<close> of the future yields within the timeout is an
  input: the response, the timeout, or another exception.
\<close>

datatype wait_outcome = Resolved Message | TimeoutError | OtherError

definition send_request ::
  "(Message \<Rightarrow> bool) \<Rightarrow> wait_outcome \<Rightarrow> world \<Rightarrow> CommunicationHub \<Rightarrow>
   AgentRole \<Rightarrow> AgentRole \<Rightarrow> string \<Rightarrow> MessageType \<Rightarrow>
   Message option \<times> CommunicationHub \<times> world" where
  "send_request rejects outcome w h snd_role rcp_role body mtype =
     (let (u, w1) = uuid4 w;
          (request_msg, w2) =
             Message_init w1 snd_role rcp_role mtype body (Some u) MEDIUM None Omitted True None;
          h1 = subscribe_to_all h (ResponseHandler rcp_role (id_msg request_msg));
          (ok, h2, w3) = send_message rejects w2 h1 request_msg
      in (case outcome of
            Resolved response \<Rightarrow> (Some response, h2, w3)
          | TimeoutError \<Rightarrow> (None, h2, w3)
          | OtherError \<Rightarrow> (None, h2, w3)))"

text \<open>\<open>broadcast_message\<close>: one message per subscribed role other than the sender.\<close>

fun broadcast_to ::
  "(Message \<Rightarrow> bool) \<Rightarrow> AgentRole \<Rightarrow> string \<Rightarrow> MessageType \<Rightarrow> AgentRole list \<Rightarrow>
   CommunicationHub \<times> world \<Rightarrow> CommunicationHub \<times> world" where
  "broadcast_to rejects snd_role body mtype [] hw = hw"
| "broadcast_to rejects snd_role body mtype (r # rs) (h, w) =
     (if r \<noteq> snd_role
      then (let (u, w1) = uuid4 w;
                (m, w2) = Message_init w1 snd_role r mtype body (Some u) MEDIUM None
                            (Given (Some [(''broadcast'', PBool True)])) False None;
                (ok, h', w3) = send_message rejects w2 h m
            in broadcast_to rejects snd_role body mtype rs (h', w3))
      else broadcast_to rejects snd_role body mtype rs (h, w))"

definition broadcast_message ::
  "(Message \<Rightarrow> bool) \<Rightarrow> world \<Rightarrow> CommunicationHub \<Rightarrow> AgentRole \<Rightarrow> string \<Rightarrow> MessageType \<Rightarrow>
   CommunicationHub \<times> world" where
  "broadcast_message rejects w h snd_role body mtype =
     broadcast_to rejects snd_role body mtype (map fst (subscribers h)) (h, w)"

text \<open>\<open>start_negotiation\<close>: the session is stored, then every participant is notified.\<close>

fun notify_participants ::
  "(Message \<Rightarrow> bool) \<Rightarrow> string \<Rightarrow> string \<Rightarrow> AgentRole list \<Rightarrow> AgentRole list \<Rightarrow>
   CommunicationHub \<times> world \<Rightarrow> CommunicationHub \<times> world" where
  "notify_participants rejects nid tp everyone [] hw = hw"
| "notify_participants rejects nid tp everyone (r # rs) (h, w) =
     (let (u, w1) = uuid4 w;
          (m, w2) = Message_init w1 ORCHESTRATOR r NEGOTIATION (''Negotiation started: '' @ tp)
                      (Some u) MEDIUM None
                      (Given (Some [(''negotiation_id'', PStr nid),
                                    (''action'', PStr ''start''),
                                    (''participants'',
                                       PList (map (\<lambda>p. PStr (AgentRole_value p)) everyone))]))
                      False None;
          (ok, h', w3) = send_message rejects w2 h m
      in notify_participants rejects nid tp everyone rs (h', w3))"

definition start_negotiation ::
  "(Message \<Rightarrow> bool) \<Rightarrow> world \<Rightarrow> CommunicationHub \<Rightarrow> AgentRole list \<Rightarrow> string \<Rightarrow>
   pydict option \<Rightarrow> string \<times> CommunicationHub \<times> world" where
  "start_negotiation rejects w h ps tp initial_data =
     (let (negotiation_id, w1) = uuid4 w;
          d = (case initial_data of None \<Rightarrow> [] | Some x \<Rightarrow> x);
          h1 = h\<lparr>active_negotiations :=
                   AList.update negotiation_id
                     \<lparr>id_negotiation = negotiation_id, participants_negotiation = ps,
                      topic = tp, data_negotiation = d, proposals = [], status_negotiation = ''active'',
                      created_at_negotiation = time_time w1\<rparr>
                     (active_negotiations h)\<rparr>;
          (h2, w2) = notify_participants rejects negotiation_id tp ps ps (h1, w1)
      in (negotiation_id, h2, w2))"

text \<open>The operations of the hub as one step function, for statements about all of them.\<close>

datatype hub_op =
    Start
  | Stop
  | Subscribe AgentRole callback
  | SubscribeToAll observer
  | SendMessage Message
  | ProcessMessages nat
  | SendRequest wait_outcome AgentRole AgentRole string MessageType
  | BroadcastMessage AgentRole string MessageType
  | StartNegotiation "AgentRole list" string "pydict option"

fun hub_step ::
  "(Message \<Rightarrow> bool) \<Rightarrow> hub_op \<Rightarrow> CommunicationHub \<times> world \<Rightarrow> CommunicationHub \<times> world" where
  "hub_step rejects Start (h, w) = (start h, w)"
| "hub_step rejects Stop (h, w) = (stop h, w)"
| "hub_step rejects (Subscribe r cb) (h, w) = (subscribe h r cb, w)"
| "hub_step rejects (SubscribeToAll ob) (h, w) = (subscribe_to_all h ob, w)"
| "hub_step rejects (SendMessage m) (h, w) = snd (send_message rejects w h m)"
| "hub_step rejects (ProcessMessages n) (h, w) = (fst (process_messages n h), w)"
| "hub_step rejects (SendRequest outcome s r body mtype) (h, w) =
     snd (send_request rejects outcome w h s r body mtype)"
| "hub_step rejects (BroadcastMessage s body mtype) (h, w) =
     broadcast_message rejects w h s body mtype"
| "hub_step rejects (StartNegotiation ps tp d) (h, w) =
     snd (start_negotiation rejects w h ps tp d)"

fun hub_run ::
  "(Message \<Rightarrow> bool) \<Rightarrow> hub_op list \<Rightarrow> CommunicationHub \<times> world \<Rightarrow> CommunicationHub \<times> world" where
  "hub_run rejects [] hw = hw"
| "hub_run rejects (op # ops) hw = hub_run rejects ops (hub_step rejects op hw)"

section \<open>The agent runtime\<close>

text \<open>
  An exception raised by code of the concrete agent (a handler, a hook), reduced to
  what the runtime looks at. It is an instance of \<open>Exception\<close>, which the clauses
  \<open>except Exception\<close> catch, or only of \<open>BaseException\<close> (\<open>asyncio.CancelledError\<close>,
  \<open>SystemExit\<close>, \<open>KeyboardInterrupt\<close>), which they let pass. The string is its
  description \<open>str(e)\<close>, as Python computes it for the class of the exception.
\<close>

datatype raised = OfException string | OfBaseException string

fun caught :: "raised \<Rightarrow> bool" where
  "caught (OfException d) = True"
| "caught (OfBaseException d) = False"

fun description :: "raised \<Rightarrow> string" where
  "description (OfException d) = d"
| "description (OfBaseException d) = d"

text \<open>
  A message handler (registered for a kind, or the abstract method \<open>handle_message\<close>)
  is code of the concrete agent: it raises, or returns an optional string.
\<close>

type_synonym handler = "Message \<Rightarrow> raised + string option"

record AgentConfig =
  name :: string
  role :: AgentRole
  max_memory_size :: int
  response_timeout :: rat
  retry_count :: int
  enable_learning :: bool
  tools :: "string list"

record AgentMetrics =
  messages_sent :: int
  messages_received :: int
  tasks_completed :: int
  tasks_failed :: int
  average_response_time :: rat
  uptime :: rat
  last_activity :: "rat option"

definition update_response_time :: "AgentMetrics \<Rightarrow> rat \<Rightarrow> AgentMetrics" where
  "update_response_time mt response_time =
     (if messages_received mt = 0
      then mt\<lparr>average_response_time := response_time\<rparr>
      else mt\<lparr>average_response_time :=
                 (average_response_time mt * of_int (messages_received mt - 1) + response_time)
                 / of_int (messages_received mt)\<rparr>)"

record BaseAgent =
  config :: AgentConfig
  agent_id :: string
  state :: AgentState
  start_time :: rat
  conversation_history :: "Message list"
  metrics :: AgentMetrics
  message_handlers :: "(MessageType \<times> handler) list"
  handle_message :: handler
  last_error :: "raised option"
  error_count :: int

definition BaseAgent_init :: "world \<Rightarrow> AgentConfig \<Rightarrow> handler \<Rightarrow> BaseAgent \<times> world" where
  "BaseAgent_init w cfg impl =
     (let (u, w1) = uuid4 w
      in (\<lparr>config = cfg, agent_id = u, state = INITIALIZING, start_time = time_time w1,
           conversation_history = [],
           metrics = \<lparr>messages_sent = 0, messages_received = 0, tasks_completed = 0,
                      tasks_failed = 0, average_response_time = 0, uptime = 0,
                      last_activity = None\<rparr>,
           message_handlers = [], handle_message = impl, last_error = None,
           error_count = 0\<rparr>, w1))"

definition register_message_handler :: "BaseAgent \<Rightarrow> MessageType \<Rightarrow> handler \<Rightarrow> BaseAgent" where
  "register_message_handler a t f = a\<lparr>message_handlers := AList.update t f (message_handlers a)\<rparr>"

text \<open>
  \<open>_change_state\<close>: nothing happens when the state is already the new one. A failure
  of a state-change callback is caught inside the loop over the callbacks.
\<close>

definition change_state :: "AgentState \<Rightarrow> BaseAgent \<times> world \<Rightarrow> BaseAgent \<times> world" where
  "change_state new_state aw =
     (let (a, w) = aw
      in if state a \<noteq> new_state
         then (a\<lparr>state := new_state\<rparr>,
               w\<lparr>events := events w @ [StateChanged (state a) new_state]\<rparr>)
         else (a, w))"

text \<open>
  \<open>_handle_error\<close>: within the retry budget the agent sleeps \<open>1.0 * error_count\<close>
  seconds and goes to idle; beyond it the function ends in the error state.
\<close>

definition handle_error :: "raised \<Rightarrow> BaseAgent \<times> world \<Rightarrow> BaseAgent \<times> world" where
  "handle_error e aw =
     (let (a, w) = aw;
          a1 = a\<lparr>last_error := Some e, error_count := error_count a + 1\<rparr>;
          (a2, w2) = (if state a1 \<noteq> ERROR then change_state ERROR (a1, w) else (a1, w))
      in if error_count a2 \<le> retry_count (config a2)
         then change_state IDLE (a2, asyncio_sleep (1 * of_int (error_count a2)) w2)
         else (a2, w2))"

text \<open>
  \<open>_send_response\<close>: the keyword arguments of \<open>Message(...)\<close> are evaluated first (the
  id, then the metadata with its clock reading), then the message is built and sent.
  The result of \<open>send_message\<close> is not looked at.
\<close>

definition send_response ::
  "(Message \<Rightarrow> bool) \<Rightarrow> Message \<Rightarrow> string \<Rightarrow> MessageType \<Rightarrow>
   BaseAgent \<times> CommunicationHub \<times> world \<Rightarrow> BaseAgent \<times> CommunicationHub \<times> world" where
  "send_response rejects original_message response_content mtype ahw =
     (let (a, h, w) = ahw;
          (u, w1) = uuid4 w;
          (response, w2) =
             Message_init w1 (role (config a)) (sender original_message) mtype response_content
               (Some u) MEDIUM None
               (Given (Some [(''response_to'', opt_str (id_msg original_message)),
                             (''agent_id'', PStr (agent_id a)),
                             (''processing_time'', PFloat (time_time w1))]))
               False None;
          (ok, h', w3) = send_message rejects w2 h response
      in (a\<lparr>metrics := (metrics a)\<lparr>messages_sent := messages_sent (metrics a) + 1\<rparr>\<rparr>, h', w3))"

text \<open>Python's truth of an optional string: \<open>None\<close> and the empty string are false.\<close>

definition truthy :: "string option \<Rightarrow> bool" where
  "truthy r = (case r of None \<Rightarrow> False | Some s \<Rightarrow> s \<noteq> [])"

text \<open>The first statements of the \<open>try\<close> block: the metrics and the bounded history.\<close>

definition record_inbound :: "rat \<Rightarrow> Message \<Rightarrow> BaseAgent \<Rightarrow> BaseAgent" where
  "record_inbound t0 m a =
     (let a1 = a\<lparr>metrics := (metrics a)\<lparr>messages_received := messages_received (metrics a) + 1,
                                        last_activity := Some t0\<rparr>\<rparr>;
          a2 = a1\<lparr>conversation_history := conversation_history a1 @ [m]\<rparr>
      in if int (length (conversation_history a2)) > max_memory_size (config a2)
         then a2\<lparr>conversation_history :=
                   slice_from (conversation_history a2) (- max_memory_size (config a2))\<rparr>
         else a2)"

text \<open>The handler registered for the kind of the message, or else \<open>handle_message\<close>.\<close>

definition select_handler :: "BaseAgent \<Rightarrow> Message \<Rightarrow> handler" where
  "select_handler a m =
     (case map_of (message_handlers a) (message_type m) of
        Some g \<Rightarrow> g
      | None \<Rightarrow> handle_message a)"

text \<open>The rest of the inner \<open>try\<close> block, after the handler has returned \<open>response\<close>.\<close>

definition on_success ::
  "(Message \<Rightarrow> bool) \<Rightarrow> rat \<Rightarrow> Message \<Rightarrow> string option \<Rightarrow>
   BaseAgent \<times> CommunicationHub \<times> world \<Rightarrow> BaseAgent \<times> CommunicationHub \<times> world" where
  "on_success rejects t0 m response ahw =
     (let (a5, h5, w5) =
            (if requires_response m \<and> truthy response
             then send_response rejects m (case response of None \<Rightarrow> [] | Some s \<Rightarrow> s)
                    TASK_RESPONSE ahw
             else ahw);
          response_time = time_time w5 - t0;
          mt = update_response_time (metrics a5) response_time
      in (a5\<lparr>metrics := mt\<lparr>tasks_completed := tasks_completed mt + 1\<rparr>\<rparr>, h5, w5))"

text \<open>
  The inner clause \<open>except Exception as e\<close>, for an exception \<open>e\<close> of the handler that
  it catches.
\<close>

definition on_failure ::
  "(Message \<Rightarrow> bool) \<Rightarrow> Message \<Rightarrow> raised \<Rightarrow>
   BaseAgent \<times> CommunicationHub \<times> world \<Rightarrow> BaseAgent \<times> CommunicationHub \<times> world" where
  "on_failure rejects m e ahw =
     (let (a, h, w) = ahw;
          a5 = a\<lparr>metrics := (metrics a)\<lparr>tasks_failed := tasks_failed (metrics a) + 1\<rparr>\<rparr>;
          (a6, w6) = handle_error e (a5, w)
      in if requires_response m
         then send_response rejects m (''Error processing request: '' @ description e)
                ERROR_REPORT (a6, h, w6)
         else (a6, h, w6))"

text \<open>
  \<open>_handle_message\<close>. The handler is the only call that can raise. An exception of
  the handler within \<open>Exception\<close> is caught by the inner \<open>except\<close> clause; any other
  passes it. The \<open>finally\<close> clause runs in every case. An exception that passed the
  inner clause passes the outer \<open>except Exception\<close> as well and leaves the function:
  the result is then \<open>Inl\<close>, of the exception and the state the function left behind.
\<close>

definition handle_message_dispatch ::
  "(Message \<Rightarrow> bool) \<Rightarrow> Message \<Rightarrow> BaseAgent \<times> CommunicationHub \<times> world \<Rightarrow>
   (raised \<times> BaseAgent \<times> CommunicationHub \<times> world) + (BaseAgent \<times> CommunicationHub \<times> world)"
  where
  "handle_message_dispatch rejects m ahw =
     (let (a, h, w) = ahw;
          t0 = time_time w;
          a3 = record_inbound t0 m a;
          previous_state = state a3;
          (a4, w4) = change_state PROCESSING (a3, w);
          (pending, a7, h7, w7) =
            (case select_handler a4 m m of
               Inr response \<Rightarrow> (None, on_success rejects t0 m response (a4, h, w4))
             | Inl e \<Rightarrow>
                 if caught e then (None, on_failure rejects m e (a4, h, w4))
                 else (Some e, a4, h, w4));
          target_state = (if previous_state = PROCESSING then IDLE else previous_state);
          (a8, w8) = change_state target_state (a7, w7)
      in case pending of
           None \<Rightarrow> Inr (a8, h7, w8)
         | Some e \<Rightarrow> Inl (e, a8, h7, w8))"

text \<open>
  \<open>start\<close> of an agent: it subscribes under its role, runs the initialization hooks
  and goes to idle. A hook that raises within \<open>Exception\<close> is handled by
  \<open>_handle_error\<close> and raised again; any other exception leaves \<open>start\<close> at once.
  The callback registered is \<open>_handle_message\<close>; the table of the hub keeps of it
  that it returns, which it does whenever its handler returns or raises within
  \<open>Exception\<close>.
\<close>

definition start_agent ::
  "raised option \<Rightarrow> BaseAgent \<times> CommunicationHub \<times> world \<Rightarrow>
   raised option \<times> BaseAgent \<times> CommunicationHub \<times> world" where
  "start_agent initialize ahw =
     (let (a, h, w) = ahw;
          h1 = subscribe h (role (config a)) (\<lambda>m. True)
      in case initialize of
           None \<Rightarrow> (let (a1, w1) = change_state IDLE (a, w) in (None, a1, h1, w1))
         | Some e \<Rightarrow>
             if caught e
             then (let (a1, w1) = handle_error e (a, w) in (Some e, a1, h1, w1))
             else (Some e, a, h1, w))"

text \<open>
  A run of inbound messages through \<open>_handle_message\<close>, one after the other, up to
  the first that an exception leaves.
\<close>

fun handle_messages ::
  "(Message \<Rightarrow> bool) \<Rightarrow> Message list \<Rightarrow> BaseAgent \<times> CommunicationHub \<times> world \<Rightarrow>
   (raised \<times> BaseAgent \<times> CommunicationHub \<times> world) + (BaseAgent \<times> CommunicationHub \<times> world)"
  where
  "handle_messages rejects [] ahw = Inr ahw"
| "handle_messages rejects (m # ms) ahw =
     attempt (handle_message_dispatch rejects m ahw) (handle_messages rejects ms)"

section \<open>The in-memory store\<close>

datatype MemoryType =
    CONVERSATION
  | TASK
  | LEARNING
  | CONTEXT
  | FACT
  | PATTERN
  | ERROR_memory

datatype MemoryPriority =
    CRITICAL
  | HIGH_memory
  | MEDIUM_memory
  | LOW_memory
  | TEMPORARY

record MemoryEntry =
  id_entry :: string
  content_entry :: pyval
  memory_type :: MemoryType
  priority_entry :: MemoryPriority
  created_at_entry :: rat
  last_accessed :: rat
  access_count :: int
  tags :: "string list"
  metadata_entry :: pydict
  expires_at :: "rat option"

text \<open>
  \<open>access\<close> and \<open>is_expired\<close> read the clock; the reading is their first argument.
\<close>

definition access :: "rat \<Rightarrow> MemoryEntry \<Rightarrow> MemoryEntry" where
  "access now e = e\<lparr>access_count := access_count e + 1, last_accessed := now\<rparr>"

definition is_expired :: "rat \<Rightarrow> MemoryEntry \<Rightarrow> bool" where
  "is_expired now e = (case expires_at e of None \<Rightarrow> False | Some t \<Rightarrow> now > t)"

text \<open>
  \<open>type_index\<close> is created with a list for every member of \<open>MemoryType\<close>, so it is a
  total function; \<open>memories\<close> and \<open>tag_index\<close> are dictionaries.
\<close>

record InMemoryStore =
  memories :: "(string \<times> MemoryEntry) list"
  type_index :: "MemoryType \<Rightarrow> string list"
  tag_index :: "(string \<times> string list) list"

definition InMemoryStore_init :: InMemoryStore where
  "InMemoryStore_init = \<lparr>memories = [], type_index = (\<lambda>t. []), tag_index = []\<rparr>"

definition add_to_tag ::
  "string \<Rightarrow> string \<Rightarrow> (string \<times> string list) list \<Rightarrow> (string \<times> string list) list" where
  "add_to_tag i tag idx =
     (let idx1 = (if map_of idx tag = None then AList.update tag [] idx else idx);
          l = (case map_of idx1 tag of None \<Rightarrow> [] | Some x \<Rightarrow> x)
      in if i \<notin> set l then AList.update tag (l @ [i]) idx1 else idx1)"

fun store_tags ::
  "string \<Rightarrow> string list \<Rightarrow> (string \<times> string list) list \<Rightarrow> (string \<times> string list) list" where
  "store_tags i [] idx = idx"
| "store_tags i (tag # rest) idx = store_tags i rest (add_to_tag i tag idx)"

definition store :: "InMemoryStore \<Rightarrow> MemoryEntry \<Rightarrow> bool \<times> InMemoryStore" where
  "store s e =
     (let i = id_entry e;
          l = type_index s (memory_type e)
      in (True,
          s\<lparr>memories := AList.update i e (memories s),
            type_index := (if i \<notin> set l then (type_index s)(memory_type e := l @ [i])
                           else type_index s),
            tag_index := store_tags i (tags e) (tag_index s)\<rparr>))"

text \<open>
  \<open>delete\<close>. \<open>list.remove\<close> takes out the first occurrence. The loop over the tags of
  the entry tests the index as the earlier turns left it.
\<close>

definition remove_from_tag ::
  "string \<Rightarrow> string \<Rightarrow> (string \<times> string list) list \<Rightarrow> (string \<times> string list) list" where
  "remove_from_tag i tag idx =
     (case map_of idx tag of
        None \<Rightarrow> idx
      | Some l \<Rightarrow>
          if i \<in> set l
          then (let l' = remove1 i l
                in if l' = [] then AList.delete tag idx else AList.update tag l' idx)
          else idx)"

fun delete_tags ::
  "string \<Rightarrow> string list \<Rightarrow> (string \<times> string list) list \<Rightarrow> (string \<times> string list) list" where
  "delete_tags i [] idx = idx"
| "delete_tags i (tag # rest) idx = delete_tags i rest (remove_from_tag i tag idx)"

definition delete :: "InMemoryStore \<Rightarrow> string \<Rightarrow> bool \<times> InMemoryStore" where
  "delete s i =
     (case map_of (memories s) i of
        None \<Rightarrow> (False, s)
      | Some entry \<Rightarrow>
          (True,
           s\<lparr>memories := AList.delete i (memories s),
             type_index := (if i \<in> set (type_index s (memory_type entry))
                            then (type_index s)(memory_type entry :=
                                                  remove1 i (type_index s (memory_type entry)))
                            else type_index s),
             tag_index := delete_tags i (tags entry) (tag_index s)\<rparr>))"

text \<open>
  \<open>retrieve\<close> reads the clock twice: \<open>t1\<close> in the first test of \<open>is_expired\<close>, \<open>t2\<close>
  in \<open>access\<close> or in the second test. The entry returned is the object kept in the
  store, so the store holds the updated entry too.
\<close>

definition retrieve ::
  "rat \<Rightarrow> rat \<Rightarrow> InMemoryStore \<Rightarrow> string \<Rightarrow> MemoryEntry option \<times> InMemoryStore" where
  "retrieve t1 t2 s i =
     (case map_of (memories s) i of
        None \<Rightarrow> (None, s)
      | Some entry \<Rightarrow>
          if \<not> is_expired t1 entry
          then (let e' = access t2 entry
                in (Some e', s\<lparr>memories := AList.update i e' (memories s)\<rparr>))
          else if is_expired t2 entry
          then (None, snd (delete s i))
          else (None, s))"

text \<open>
  The index lists of a store hold no identifier twice: \<open>store\<close> appends an identifier
  only where it is not yet listed.
\<close>

definition all_memory_types :: "MemoryType list" where
  "all_memory_types = [CONVERSATION, TASK, LEARNING, CONTEXT, FACT, PATTERN, ERROR_memory]"

definition index_distinct :: "InMemoryStore \<Rightarrow> bool" where
  "index_distinct s =
     (list_all (\<lambda>t. distinct (type_index s t)) all_memory_types
      \<and> list_all (\<lambda>tag. case map_of (tag_index s) tag of None \<Rightarrow> True | Some l \<Rightarrow> distinct l)
          (map fst (tag_index s)))"

text \<open>The identifier is listed under none of these tags.\<close>

definition unlisted :: "string \<Rightarrow> string list \<Rightarrow> (string \<times> string list) list \<Rightarrow> bool" where
  "unlisted i ts idx =
     list_all (\<lambda>tag. case map_of idx tag of None \<Rightarrow> True | Some l \<Rightarrow> i \<notin> set l) ts"

section \<open>Example values\<close>

definition example_world :: world where
  "example_world =
     \<lparr>clock = 100, uuid_stream = (\<lambda>n. ''uuid-'' @ replicate n (CHR ''x'')), uuid_count = 0,
      events = []\<rparr>"

definition example_message :: Message where
  "example_message =
     \<lparr>sender = TESTER, recipient = DEVELOPER, message_type = ERROR_REPORT,
      content = ''Serialization test'', id_msg = Some [], priority = HIGH,
      timestamp = Some 123456, metadata = Some [(''test_key'', PStr ''test_value'')],
      requires_response = False, conversation_id = Some ''conv-1''\<rparr>"

definition example_data_none_meta :: pydict where
  "example_data_none_meta =
     [(''id'', PStr ''edge-1''), (''sender'', PStr ''dev''), (''recipient'', PStr ''pm''),
      (''message_type'', PStr ''task_request''), (''content'', PStr ''Test''),
      (''priority'', PInt 2), (''timestamp'', PFloat 123456), (''metadata'', PNone)]"

definition example_data_no_meta :: pydict where
  "example_data_no_meta =
     [(''id'', PStr ''edge-2''), (''sender'', PStr ''dev''), (''recipient'', PStr ''pm''),
      (''message_type'', PStr ''task_request''), (''content'', PStr ''Test''),
      (''priority'', PInt 2), (''timestamp'', PFloat 123456)]"

definition example_queue :: "Message list" where
  "example_queue =
     [example_message\<lparr>id_msg := Some ''m1'', priority := LOW\<rparr>,
      example_message\<lparr>id_msg := Some ''m2'', priority := URGENT\<rparr>,
      example_message\<lparr>id_msg := Some ''m3'', priority := MEDIUM\<rparr>,
      example_message\<lparr>id_msg := Some ''m4'', priority := URGENT\<rparr>]"

definition example_config :: AgentConfig where
  "example_config =
     \<lparr>name = ''TestAgent'', role = DEVELOPER, max_memory_size = 100, response_timeout = 5,
      retry_count = 3, enable_learning = True, tools = []\<rparr>"

definition failing_handler :: handler where
  "failing_handler = (\<lambda>m. Inl (OfException ''Simulated error''))"

definition example_entry :: MemoryEntry where
  "example_entry =
     \<lparr>id_entry = ''mem-1'', content_entry = PStr ''User asked about testing'',
      memory_type = CONVERSATION, priority_entry = MEDIUM_memory, created_at_entry = 10,
      last_accessed = 10, access_count = 0, tags = [''user'', ''testing''],
      metadata_entry = [], expires_at = Some 50\<rparr>"

definition example_hub :: CommunicationHub where
  "example_hub =
     start (subscribe_to_all (subscribe CommunicationHub_init DEVELOPER (\<lambda>m. True))
              (Observer (\<lambda>m. False)))"

definition example_agent :: "BaseAgent \<times> CommunicationHub \<times> world" where
  "example_agent =
     snd (start_agent None
            (fst (BaseAgent_init example_world example_config failing_handler),
             example_hub, example_world))"

definition example_store :: InMemoryStore where
  "example_store = snd (store InMemoryStore_init example_entry)"



definition example_other_entry :: MemoryEntry where
  "example_other_entry = example_entry\<lparr>id_entry := ''mem-2'', expires_at := None\<rparr>"

definition example_entry_again :: MemoryEntry where
  "example_entry_again = example_entry\<lparr>memory_type := TASK, tags := [''task'']\<rparr>"

definition example_store_again :: InMemoryStore where
  "example_store_again =
     snd (store (snd (store (snd (store InMemoryStore_init example_entry))
                        example_other_entry))
            example_entry_again)"

section \<open>Serialization of messages\<close>

lemma deepcopy_ident: "deepcopy v = v"
proof (induction v rule: deepcopy.induct)
  case (1 xs)
  then show ?case by (simp add: map_idI)
next
  case (2 kvs)
  have "map (\<lambda>(k, v). (k, deepcopy v)) kvs = map (\<lambda>x. x) kvs"
    by (rule map_cong) (auto simp: 2)
  then show ?case by simp
qed simp_all

lemma AgentRole_of_value: "AgentRole_of (PStr (AgentRole_value r)) = Inr r"
  by (cases r) (simp_all add: AgentRole_of_def)

lemma MessageType_of_value: "MessageType_of (PStr (MessageType_value t)) = Inr t"
  by (cases t) (simp_all add: MessageType_of_def)

lemma MessagePriority_of_value: "MessagePriority_of (PInt (MessagePriority_value p)) = Inr p"
  by (cases p) (simp_all add: MessagePriority_of_def)

lemma post_init_valid:
  "id_msg m = Some i \<Longrightarrow> timestamp m = Some t \<Longrightarrow> conversation_id m = Some c \<Longrightarrow>
   post_init w m = (m, w)"
  by (simp add: post_init_def)

lemma metadata_post_init: "metadata (fst (post_init w m)) = metadata m"
  by (simp add: post_init_def Let_def uuid4_def split: prod.splits)

lemma from_dict_to_dict:
  assumes "id_msg m \<noteq> None" "timestamp m \<noteq> None" "conversation_id m \<noteq> None"
    "metadata m \<noteq> None"
  shows "from_dict w (to_dict m) = Inr (m, w)"
proof -
  obtain i t c d where e: "id_msg m = Some i" "timestamp m = Some t"
      "conversation_id m = Some c" "metadata m = Some d"
    using assms by auto
  show ?thesis
    by (simp add: from_dict_def to_dict_def e deepcopy_ident attempt_def subscript_def
        dict_get_def AgentRole_of_value MessageType_of_value MessagePriority_of_value
        Message_init_def post_init_valid[where i=i and t=t and c=c])
qed

lemma Message_init_metadata:
  assumes "Message_init w s r t c i p ts meta rr cid = (m, w')"
  shows "metadata m = (case meta of Omitted \<Rightarrow> Some [] | Given d \<Rightarrow> d)"
proof -
  have "metadata m = metadata (fst (Message_init w s r t c i p ts meta rr cid))"
    using assms by simp
  also have "\<dots> = (case meta of Omitted \<Rightarrow> Some [] | Given d \<Rightarrow> d)"
    by (simp add: Message_init_def metadata_post_init)
  finally show ?thesis .
qed

lemma from_dict_metadata:
  assumes "from_dict w data = Inr (m, w')"
  shows "metadata m = Some (case dict_get data ''metadata'' PNone of PDict d \<Rightarrow> d | _ \<Rightarrow> [])"
  using assms
  by (auto simp: from_dict_def attempt_def Let_def split: sum.splits
      dest: Message_init_metadata)

lemma to_dict_enums:
  "map_of (to_dict m) ''sender'' = Some (PStr (AgentRole_value (sender m)))"
  "map_of (to_dict m) ''recipient'' = Some (PStr (AgentRole_value (recipient m)))"
  "map_of (to_dict m) ''message_type'' = Some (PStr (MessageType_value (message_type m)))"
  "map_of (to_dict m) ''priority'' = Some (PInt (MessagePriority_value (priority m)))"
  by (simp_all add: to_dict_def)

text \<open>
  C3. A message whose id, timestamp, conversation id and metadata are present (as they
  are after construction) is reproduced exactly by \<open>from_dict\<close> of its \<open>to_dict\<close>,
  whatever its roles, kind and priority, and also when its id is the empty string; no
  fresh id or clock reading is taken. In the dictionary the four enum-valued fields are
  the members' values. A dictionary whose \<open>metadata\<close> is \<open>None\<close> deserializes to a
  message with the empty mapping.
\<close>

theorem message_round_trip:
  "(id_msg m \<noteq> None \<and> timestamp m \<noteq> None \<and> conversation_id m \<noteq> None \<and> metadata m \<noteq> None
      \<longrightarrow> from_dict w (to_dict m) = Inr (m, w))
   \<and> map_of (to_dict m) ''sender'' = Some (PStr (AgentRole_value (sender m)))
   \<and> map_of (to_dict m) ''recipient'' = Some (PStr (AgentRole_value (recipient m)))
   \<and> map_of (to_dict m) ''message_type'' = Some (PStr (MessageType_value (message_type m)))
   \<and> map_of (to_dict m) ''priority'' = Some (PInt (MessagePriority_value (priority m)))
   \<and> (map_of data ''metadata'' = Some PNone \<and> from_dict w data = Inr (m', w')
      \<longrightarrow> metadata m' = Some [])"
proof -
  have "metadata m' = Some []"
    if "map_of data ''metadata'' = Some PNone" "from_dict w data = Inr (m', w')"
    using from_dict_metadata[OF that(2)] that(1) by (simp add: dict_get_def)
  then show ?thesis
    using from_dict_to_dict[of m w] to_dict_enums[of m] by blast
qed

theorem message_round_trip_witness:
  "id_msg example_message = Some []
   \<and> from_dict example_world (to_dict example_message) = Inr (example_message, example_world)
   \<and> (\<exists>m' w'. from_dict example_world example_data_none_meta = Inr (m', w')
        \<and> metadata m' = Some [])"
proof -
  have v: "id_msg example_message \<noteq> None \<and> timestamp example_message \<noteq> None
      \<and> conversation_id example_message \<noteq> None \<and> metadata example_message \<noteq> None"
    by (simp add: example_message_def)
  have n: "map_of example_data_none_meta ''metadata'' = Some PNone"
    by (simp add: example_data_none_meta_def)
  have "\<exists>x. from_dict example_world example_data_none_meta = Inr x"
    by (simp add: from_dict_def example_data_none_meta_def attempt_def subscript_def
        dict_get_def AgentRole_of_def MessageType_of_def MessagePriority_of_def)
  then obtain m' w' where f: "from_dict example_world example_data_none_meta = Inr (m', w')"
    by (metis prod.exhaust)
  have "metadata m' = Some []"
    using message_round_trip[of example_message example_world example_data_none_meta m' w'] n f
    by blast
  moreover have "from_dict example_world (to_dict example_message)
      = Inr (example_message, example_world)"
    using message_round_trip[of example_message example_world example_data_none_meta m' w'] v
    by blast
  moreover have "id_msg example_message = Some []"
    by (simp add: example_message_def)
  ultimately show ?thesis using f by blast
qed

lemma metadata_from_dict_or_default:
  "metadata (fst (Message_init w s r t c i p ts Omitted rr cid)) = Some []
   \<and> metadata (fst (Message_init w s r t c i p ts (Given (Some d)) rr cid)) = Some d
   \<and> (from_dict w data = Inr (m, w')
      \<longrightarrow> metadata m \<noteq> None
          \<and> (map_of data ''metadata'' = None \<or> map_of data ''metadata'' = Some PNone
             \<longrightarrow> metadata m = Some []))"
proof -
  have "metadata m \<noteq> None
      \<and> (map_of data ''metadata'' = None \<or> map_of data ''metadata'' = Some PNone
         \<longrightarrow> metadata m = Some [])"
    if "from_dict w data = Inr (m, w')"
    using from_dict_metadata[OF that] by (auto simp: dict_get_def)
  then show ?thesis
    by (simp add: Message_init_def metadata_post_init)
qed

text \<open>
  C4, at a direct construction with \<open>metadata=None\<close>. The generated \<open>__init__\<close>
  stores the argument and \<open>__post_init__\<close>, which fills in the timestamp, the id and
  the conversation id where they are \<open>None\<close>, has no such step for the metadata: the
  message built has \<open>None\<close> for metadata, not the empty mapping.
\<close>

theorem explicit_none_metadata_kept:
  "metadata (fst (Message_init example_world DEVELOPER REVIEWER STATUS_UPDATE ''note'' None
                    MEDIUM None (Given None) False None)) = None
   \<and> timestamp (fst (Message_init example_world DEVELOPER REVIEWER STATUS_UPDATE ''note'' None
                    MEDIUM None (Given None) False None)) = Some 100
   \<and> id_msg (fst (Message_init example_world DEVELOPER REVIEWER STATUS_UPDATE ''note'' None
                    MEDIUM None (Given None) False None)) = Some ''uuid-''
   \<and> conversation_id (fst (Message_init example_world DEVELOPER REVIEWER STATUS_UPDATE ''note''
                    None MEDIUM None (Given None) False None)) = Some ''uuid-x''"
  by (simp add: Message_init_def post_init_def uuid4_def time_time_def example_world_def
      Let_def)

section \<open>Conversation context\<close>

lemma get_context_positive:
  "0 < limit \<Longrightarrow>
   get_context th limit = drop (length (messages th) - nat limit) (messages th)"
  by (auto simp: get_context_def slice_from_def Let_def max_def nat_diff_distrib'
      intro: arg_cong2[where f=drop])

text \<open>
  C8, at the limit \<open>0\<close>: the slice \<open>messages[-0:]\<close> is the whole list, so
  \<open>get_context(0)\<close> returns every message of the thread and not the last
  \<open>min(N, 0) = 0\<close> of them.
\<close>

theorem get_context_limit_zero: "get_context th 0 = messages th"
  by (simp add: get_context_def slice_from_def)

section \<open>Sending and dispatching\<close>

lemma send_message_rejected:
  "rejects m \<Longrightarrow> send_message rejects w h m = (False, h\<lparr>total_failed := total_failed h + 1\<rparr>, w)"
  by (simp add: send_message_def)

lemma track_conversation_message:
  "track_conversation w h m = (convs, m', w') \<Longrightarrow> m' = m\<lparr>conversation_id := conversation_id m'\<rparr>"
  by (auto simp: track_conversation_def Let_def add_message_def split: prod.splits)

lemma send_message_accepted:
  "\<not> rejects m \<Longrightarrow> track_conversation w h m = (convs, m', w') \<Longrightarrow>
   send_message rejects w h m =
     (True,
      h\<lparr>message_queue := message_queue h @ [(MessagePriority_value (priority m), m')],
        message_history := message_history h @ [m'],
        total_sent := total_sent h + 1,
        conversations := convs\<rparr>,
      w')"
  by (simp add: send_message_def)

lemma send_message_observers:
  "broadcast_subscribers (fst (snd (send_message rejects w h m))) = broadcast_subscribers h"
  by (simp add: send_message_def Let_def split: prod.splits)

lemma deliver_observers: "broadcast_subscribers (fst (deliver h m)) = broadcast_subscribers h"
  by (simp add: deliver_def Let_def split: prod.splits option.splits)

lemma process_messages_observers:
  "broadcast_subscribers (fst (process_messages n h)) = broadcast_subscribers h"
proof (induction n arbitrary: h)
  case 0
  show ?case by simp
next
  case (Suc n)
  show ?case
  proof (cases "message_queue h")
    case Nil
    then show ?thesis using Suc by simp
  next
    case (Cons pm q)
    obtain p m where pm: "pm = (p, m)" by (cases pm)
    obtain h1 c where d: "deliver (h\<lparr>message_queue := q\<rparr>) m = (h1, c)" by (cases "deliver (h\<lparr>message_queue := q\<rparr>) m")
    have "broadcast_subscribers h1 = broadcast_subscribers h"
      using deliver_observers[of "h\<lparr>message_queue := q\<rparr>" m] d by simp
    then show ?thesis using Suc[of h1] Cons pm d by (auto split: prod.splits)
  qed
qed

lemma broadcast_to_observers:
  "broadcast_subscribers (fst (broadcast_to rejects s body mtype rs (h, w))) = broadcast_subscribers h"
proof (induction rs arbitrary: h w)
  case Nil
  show ?case by simp
next
  case (Cons r rs)
  show ?case
  proof (cases "r = s")
    case True
    then show ?thesis using Cons by simp
  next
    case False
    obtain u w1 where a: "uuid4 w = (u, w1)" by (cases "uuid4 w")
    obtain m w2 where b: "Message_init w1 s r mtype body (Some u) MEDIUM None
                            (Given (Some [(''broadcast'', PBool True)])) False None = (m, w2)"
      by (cases "Message_init w1 s r mtype body (Some u) MEDIUM None
                            (Given (Some [(''broadcast'', PBool True)])) False None")
    obtain ok h' w3 where c: "send_message rejects w2 h m = (ok, h', w3)"
      by (cases "send_message rejects w2 h m")
    have "broadcast_subscribers h' = broadcast_subscribers h"
      using send_message_observers[of rejects w2 h m] c by simp
    then show ?thesis using False a b c Cons[of h' w3] by simp
  qed
qed

lemma notify_participants_observers:
  "broadcast_subscribers (fst (notify_participants rejects nid tp ev rs (h, w))) = broadcast_subscribers h"
proof (induction rs arbitrary: h w)
  case Nil
  show ?case by simp
next
  case (Cons r rs)
  obtain u w1 where a: "uuid4 w = (u, w1)" by (cases "uuid4 w")
  obtain m w2 where b: "Message_init w1 ORCHESTRATOR r NEGOTIATION (''Negotiation started: '' @ tp)
                      (Some u) MEDIUM None
                      (Given (Some [(''negotiation_id'', PStr nid),
                                    (''action'', PStr ''start''),
                                    (''participants'',
                                       PList (map (\<lambda>p. PStr (AgentRole_value p)) ev))]))
                      False None = (m, w2)"
    using prod.exhaust by blast
  obtain ok h' w3 where c: "send_message rejects w2 h m = (ok, h', w3)"
    by (cases "send_message rejects w2 h m")
  have "broadcast_subscribers h' = broadcast_subscribers h"
    using send_message_observers[of rejects w2 h m] c by simp
  then show ?case using a b c Cons[of h' w3] by simp
qed

lemma send_request_observers:
  "broadcast_subscribers (fst (snd (send_request rejects outcome w h s r body mtype))) =
     broadcast_subscribers h @ [ResponseHandler r (Some (fst (uuid4 w)))]"
proof -
  obtain u w1 where a: "uuid4 w = (u, w1)" by (cases "uuid4 w")
  obtain m w2 where b: "Message_init w1 s r mtype body (Some u) MEDIUM None Omitted True None = (m, w2)"
    using prod.exhaust by blast
  have i: "id_msg m = Some u"
    using b by (auto simp: Message_init_def post_init_def Let_def split: prod.splits if_splits)
  obtain ok h2 w3 where c: "send_message rejects w2 (subscribe_to_all h (ResponseHandler r (Some u))) m = (ok, h2, w3)"
    using prod_cases3 by blast
  have "broadcast_subscribers h2 = broadcast_subscribers (subscribe_to_all h (ResponseHandler r (Some u)))"
    using send_message_observers[of rejects w2 "subscribe_to_all h (ResponseHandler r (Some u))" m] c by simp
  then show ?thesis using a b c i
    by (cases outcome) (simp_all add: send_request_def subscribe_to_all_def)
qed

lemma hub_step_observers:
  "\<exists>obs. broadcast_subscribers (fst (hub_step rejects x (h, w))) = broadcast_subscribers h @ obs"
proof (cases x)
  case (SendMessage m)
  then show ?thesis using send_message_observers[of rejects w h m] by simp
next
  case (ProcessMessages n)
  then show ?thesis by (simp add: process_messages_observers)
next
  case (SendRequest outcome s r body mtype)
  then show ?thesis using send_request_observers[of rejects outcome w h s r body mtype] by simp
next
  case (BroadcastMessage s body mtype)
  then show ?thesis by (simp add: broadcast_message_def broadcast_to_observers)
next
  case (StartNegotiation ps tp d)
  then show ?thesis
    by (simp add: start_negotiation_def Let_def notify_participants_observers split: prod.splits)
qed (simp_all add: start_def stop_def subscribe_def subscribe_to_all_def)

lemma hub_run_observers:
  "\<exists>obs. broadcast_subscribers (fst (hub_run rejects ops hw)) = broadcast_subscribers (fst hw) @ obs"
proof (induction ops arbitrary: hw)
  case Nil
  show ?case by simp
next
  case (Cons x ops)
  obtain h w where hw: "hw = (h, w)" by (cases hw)
  obtain o1 where 1: "broadcast_subscribers (fst (hub_step rejects x (h, w))) = broadcast_subscribers h @ o1"
    using hub_step_observers by blast
  obtain o2 where 2: "broadcast_subscribers (fst (hub_run rejects ops (hub_step rejects x (h, w)))) =
      broadcast_subscribers (fst (hub_step rejects x (h, w))) @ o2"
    using Cons by blast
  show ?case using 1 2 hw by simp
qed

text \<open>
  C6. \<open>send_message\<close> answers a boolean and nothing else. When the queue refuses the
  item, only the counter of failures grows and the answer is \<open>False\<close>. Otherwise the
  answer is \<open>True\<close>, the pair of priority value and message is at the back of the queue,
  the message is at the end of the history, the counter of sent messages has grown by
  one and the conversation table is the one \<open>_track_conversation\<close> built; the message
  stored differs from the one given at most in the conversation id written by the
  thread.
\<close>

theorem send_message_outcome:
  "(rejects m \<longrightarrow>
      send_message rejects w h m = (False, h\<lparr>total_failed := total_failed h + 1\<rparr>, w))
   \<and> (\<not> rejects m \<longrightarrow>
      (\<exists>convs m' w'.
         track_conversation w h m = (convs, m', w')
         \<and> m' = m\<lparr>conversation_id := conversation_id m'\<rparr>
         \<and> send_message rejects w h m =
             (True,
              h\<lparr>message_queue := message_queue h @ [(MessagePriority_value (priority m), m')],
                message_history := message_history h @ [m'],
                total_sent := total_sent h + 1,
                conversations := convs\<rparr>,
              w')))"
proof -
  obtain convs m' w' where t: "track_conversation w h m = (convs, m', w')"
    using prod_cases3 by blast
  show ?thesis
    using send_message_rejected[of rejects m w h]
      send_message_accepted[of rejects m w h convs m' w']
      track_conversation_message[of w h m convs m' w'] t
    by blast
qed

theorem send_message_outcome_witness:
  "fst (send_message (\<lambda>m. True) example_world example_hub example_message) = False
   \<and> total_failed (fst (snd (send_message (\<lambda>m. True) example_world example_hub example_message)))
       = total_failed example_hub + 1
   \<and> fst (send_message (\<lambda>m. False) example_world example_hub example_message) = True
   \<and> message_history
        (fst (snd (send_message (\<lambda>m. False) example_world example_hub example_message)))
       = [example_message]"
proof -
  have t: "\<exists>convs. track_conversation example_world example_hub example_message
      = (convs, example_message, example_world)"
    by (simp add: track_conversation_def example_hub_def example_message_def Let_def
        add_message_def CommunicationHub_init_def start_def subscribe_def subscribe_to_all_def)
  have h: "message_history example_hub = []"
    by (simp add: example_hub_def CommunicationHub_init_def start_def subscribe_def
        subscribe_to_all_def)
  show ?thesis
    using send_message_outcome[of "\<lambda>m. True" example_message example_world example_hub]
      send_message_outcome[of "\<lambda>m. False" example_message example_world example_hub] t h
    by auto
qed

text \<open>
  C7. A message whose recipient has no registered handler: the dispatch of it leaves
  the hub as it is (neither the delivered nor the failed count moves), calls no
  handler, and calls every broadcast observer once, in registration order. This is
  also what a turn of the running loop does with it at the front of the queue. When it
  was sent, it was appended to the history like any other message.
\<close>

theorem unrouted_message_dropped:
  "map_of (subscribers h) (recipient m) = None \<longrightarrow>
     deliver h m =
       (h, map (\<lambda>(i, ob). ObserverCall i m (observer_returns ob m))
             (enumerate 0 (broadcast_subscribers h)))
     \<and> dispatched (snd (deliver h m)) = []
     \<and> length (snd (deliver h m)) = length (broadcast_subscribers h)
     \<and> (is_running h \<and> message_queue h = (p, m) # q \<longrightarrow>
          process_messages 1 h =
            (h\<lparr>message_queue := q\<rparr>,
             map (\<lambda>(i, ob). ObserverCall i m (observer_returns ob m))
               (enumerate 0 (broadcast_subscribers h))))
     \<and> (\<not> rejects m \<longrightarrow>
          (\<exists>m'. m' = m\<lparr>conversation_id := conversation_id m'\<rparr>
             \<and> message_history (fst (snd (send_message rejects w h m)))
                 = message_history h @ [m']
             \<and> message_queue (fst (snd (send_message rejects w h m)))
                 = message_queue h @ [(MessagePriority_value (priority m), m')]))"
proof
  assume a: "map_of (subscribers h) (recipient m) = None"
  have d: "deliver h m =
       (h, map (\<lambda>(i, ob). ObserverCall i m (observer_returns ob m))
             (enumerate 0 (broadcast_subscribers h)))"
    using a by (simp add: deliver_def)
  have n: "dispatched (map (\<lambda>(i, ob). ObserverCall i m (observer_returns ob m)) xs) = []"
    for xs :: "(nat \<times> observer) list"
    by (induction xs) auto
  have l: "process_messages 1 h =
            (h\<lparr>message_queue := q\<rparr>,
             map (\<lambda>(i, ob). ObserverCall i m (observer_returns ob m))
               (enumerate 0 (broadcast_subscribers h)))"
    if "is_running h" "message_queue h = (p, m) # q"
    using that a by (simp add: deliver_def)
  have s: "\<exists>m'. m' = m\<lparr>conversation_id := conversation_id m'\<rparr>
             \<and> message_history (fst (snd (send_message rejects w h m)))
                 = message_history h @ [m']
             \<and> message_queue (fst (snd (send_message rejects w h m)))
                 = message_queue h @ [(MessagePriority_value (priority m), m')]"
    if r: "\<not> rejects m"
  proof -
    obtain convs m' w' where t: "track_conversation w h m = (convs, m', w')"
      using prod_cases3 by blast
    show ?thesis
      using send_message_accepted[of rejects m w h convs m' w']
        track_conversation_message[of w h m convs m' w'] r t
      by auto
  qed
  show "deliver h m =
       (h, map (\<lambda>(i, ob). ObserverCall i m (observer_returns ob m))
             (enumerate 0 (broadcast_subscribers h)))
     \<and> dispatched (snd (deliver h m)) = []
     \<and> length (snd (deliver h m)) = length (broadcast_subscribers h)
     \<and> (is_running h \<and> message_queue h = (p, m) # q \<longrightarrow>
          process_messages 1 h =
            (h\<lparr>message_queue := q\<rparr>,
             map (\<lambda>(i, ob). ObserverCall i m (observer_returns ob m))
               (enumerate 0 (broadcast_subscribers h))))
     \<and> (\<not> rejects m \<longrightarrow>
          (\<exists>m'. m' = m\<lparr>conversation_id := conversation_id m'\<rparr>
             \<and> message_history (fst (snd (send_message rejects w h m)))
                 = message_history h @ [m']
             \<and> message_queue (fst (snd (send_message rejects w h m)))
                 = message_queue h @ [(MessagePriority_value (priority m), m')]))"
    using d n l s by simp
qed

theorem unrouted_message_dropped_witness:
  "map_of (subscribers example_hub) (recipient (example_message\<lparr>recipient := REVIEWER\<rparr>)) = None
   \<and> deliver example_hub (example_message\<lparr>recipient := REVIEWER\<rparr>) =
       (example_hub, [ObserverCall 0 (example_message\<lparr>recipient := REVIEWER\<rparr>) False])
   \<and> is_running (example_hub\<lparr>message_queue := [(3, example_message\<lparr>recipient := REVIEWER\<rparr>)]\<rparr>)
   \<and> process_messages 1
        (example_hub\<lparr>message_queue := [(3, example_message\<lparr>recipient := REVIEWER\<rparr>)]\<rparr>) =
       (example_hub\<lparr>message_queue := []\<rparr>,
        [ObserverCall 0 (example_message\<lparr>recipient := REVIEWER\<rparr>) False])
   \<and> (\<exists>m'. message_history
              (fst (snd (send_message (\<lambda>m. False) example_world example_hub
                           (example_message\<lparr>recipient := REVIEWER\<rparr>))))
            = message_history example_hub @ [m'])"
proof -
  let ?m = "example_message\<lparr>recipient := REVIEWER\<rparr>"
  let ?h = "example_hub\<lparr>message_queue := [(3, ?m)]\<rparr>"
  have a: "map_of (subscribers example_hub) (recipient ?m) = None"
    "map_of (subscribers ?h) (recipient ?m) = None"
    by (simp_all add: example_hub_def CommunicationHub_init_def start_def subscribe_def
        subscribe_to_all_def)
  have b: "broadcast_subscribers example_hub = [Observer (\<lambda>m. False)]"
    "is_running ?h" "message_queue ?h = (3, ?m) # []"
    by (simp_all add: example_hub_def CommunicationHub_init_def start_def subscribe_def
        subscribe_to_all_def)
  have 1: "deliver example_hub ?m = (example_hub, [ObserverCall 0 ?m False])"
    using unrouted_message_dropped[of example_hub ?m] a(1) b(1) by simp
  have 2: "process_messages 1 ?h = (example_hub\<lparr>message_queue := []\<rparr>,
        [ObserverCall 0 ?m False])"
    using unrouted_message_dropped[of ?h ?m 3 "[]"] a(2) b by simp
  have 3: "\<exists>m'. message_history
              (fst (snd (send_message (\<lambda>m. False) example_world example_hub ?m)))
            = message_history example_hub @ [m']"
    using unrouted_message_dropped[of example_hub ?m _ _ "\<lambda>m. False" example_world] a(1)
    by blast
  show ?thesis using a(1) b(2) 1 2 3 by blast
qed

text \<open>
  C9. Whatever the wait for the response yields (the response, the timeout or another
  exception) and whether or not the queue took the request, \<open>send_request\<close> leaves the
  list of broadcast observers exactly one element longer: the list it found, followed
  by the response handler of this request. No operation of the hub, and no sequence of
  them, removes an observer: the list before is a prefix of the list after.
\<close>

theorem send_request_observer_stays:
  "broadcast_subscribers (fst (snd (send_request rejects outcome w h s r body mtype)))
     = broadcast_subscribers h @ [ResponseHandler r (Some (fst (uuid4 w)))]
   \<and> length (broadcast_subscribers (fst (snd (send_request rejects outcome w h s r body mtype))))
     = length (broadcast_subscribers h) + 1
   \<and> take (length (broadcast_subscribers h))
       (broadcast_subscribers (fst (hub_run rejects ops (h, w)))) = broadcast_subscribers h
   \<and> length (broadcast_subscribers h)
     \<le> length (broadcast_subscribers (fst (hub_run rejects ops (h, w))))"
proof -
  obtain obs where
    "broadcast_subscribers (fst (hub_run rejects ops (h, w))) = broadcast_subscribers h @ obs"
    using hub_run_observers[of rejects ops "(h, w)"] by auto
  then show ?thesis
    by (simp add: send_request_observers)
qed


section \<open>Order of dispatch\<close>

lemma deliver_keeps:
  "subscribers (fst (deliver h m)) = subscribers h"
  "is_running (fst (deliver h m)) = is_running h"
  "message_queue (fst (deliver h m)) = message_queue h"
  by (simp_all add: deliver_def Let_def split: prod.splits option.splits)

lemma dispatched_append: "dispatched (xs @ ys) = dispatched xs @ dispatched ys"
  by (induction xs rule: dispatched.induct) simp_all

lemma dispatched_observers:
  "dispatched (map (\<lambda>(i, ob). ObserverCall i m (observer_returns ob m)) xs) = []"
  by (induction xs) auto

lemma dispatched_deliver:
  "dispatched (snd (deliver h m)) = (if map_of (subscribers h) (recipient m) = None then [] else [m])"
  by (cases "map_of (subscribers h) (recipient m)")
     (simp_all add: deliver_def Let_def dispatched_append dispatched_observers)

lemma process_messages_fifo:
  "is_running h \<Longrightarrow> length (message_queue h) \<le> n \<Longrightarrow>
   dispatched (snd (process_messages n h)) =
     filter (\<lambda>m. map_of (subscribers h) (recipient m) \<noteq> None) (map snd (message_queue h))"
proof (induction n arbitrary: h)
  case 0
  then show ?case by simp
next
  case (Suc n)
  show ?case
  proof (cases "message_queue h")
    case Nil
    then show ?thesis using Suc.prems(1) Suc.IH[of h] by simp
  next
    case (Cons pm q)
    obtain p m where pm: "pm = (p, m)" by (cases pm)
    define h0 where "h0 = h\<lparr>message_queue := q\<rparr>"
    obtain h1 c where d: "deliver h0 m = (h1, c)" by (cases "deliver h0 m")
    have k: "subscribers h1 = subscribers h" "is_running h1" "message_queue h1 = q"
      using deliver_keeps[of h0 m] d Suc.prems(1) by (simp_all add: h0_def)
    have c: "dispatched c = (if map_of (subscribers h) (recipient m) = None then [] else [m])"
      using dispatched_deliver[of h0 m] d by (simp add: h0_def)
    have "length (message_queue h1) \<le> n" using k Suc.prems(2) Cons by simp
    then have ih: "dispatched (snd (process_messages n h1)) =
       filter (\<lambda>m. map_of (subscribers h) (recipient m) \<noteq> None) (map snd q)"
      using Suc.IH[of h1] k by simp
    obtain h2 cs where r: "process_messages n h1 = (h2, cs)" by (cases "process_messages n h1")
    have "process_messages (Suc n) h = (h2, c @ cs)"
      using Suc.prems(1) Cons pm d r by (simp add: h0_def)
    then show ?thesis using ih r c Cons pm by (simp add: dispatched_append)
  qed
qed

text \<open>
  C1, at the scenario of the claim. Four messages with the priorities low, urgent,
  medium, urgent are sent in this order to a running hub and the loop then takes four
  turns. The queue is a first-in-first-out queue, whatever the first component of its
  items: the messages reach the handler in the order low, urgent, medium, urgent in
  which they were sent, not by priority tier.
\<close>

theorem dispatch_order_scenario:
  "map (\<lambda>m. (id_msg m, priority m))
     (dispatched (snd (process_messages 4
        (fst (hub_run (\<lambda>m. False) (map SendMessage example_queue)
                (example_hub, example_world))))))
   = [(Some ''m1'', LOW), (Some ''m2'', URGENT), (Some ''m3'', MEDIUM), (Some ''m4'', URGENT)]"
  by (simp add: example_queue_def example_hub_def example_world_def example_message_def
      send_message_def track_conversation_def add_message_def Let_def deliver_def
      CommunicationHub_init_def start_def subscribe_def subscribe_to_all_def eval_nat_numeral)

section \<open>Failures of message handlers\<close>

lemma change_state_eq:
  "change_state s (a, w) =
     (a\<lparr>state := s\<rparr>, if state a \<noteq> s then w\<lparr>events := events w @ [StateChanged (state a) s]\<rparr> else w)"
  by (simp add: change_state_def)

lemma handle_error_eq:
  "handle_error e (a, w) =
     (if error_count a + 1 \<le> retry_count (config a)
      then (a\<lparr>last_error := Some e, error_count := error_count a + 1, state := IDLE\<rparr>,
            w\<lparr>clock := clock w + of_int (error_count a + 1),
              events := events w @ (if state a \<noteq> ERROR then [StateChanged (state a) ERROR] else [])
                          @ [Slept (of_int (error_count a + 1)), StateChanged ERROR IDLE]\<rparr>)
      else (a\<lparr>last_error := Some e, error_count := error_count a + 1, state := ERROR\<rparr>,
            if state a \<noteq> ERROR then w\<lparr>events := events w @ [StateChanged (state a) ERROR]\<rparr> else w))"
  by (simp add: handle_error_def change_state_def Let_def asyncio_sleep_def)

lemma send_message_world:
  "send_message rejects w h m = (ok, h', w') \<Longrightarrow> events w' = events w \<and> clock w' = clock w"
  by (auto simp: send_message_def track_conversation_def Let_def uuid4_def split: if_splits prod.splits option.splits)

lemma Message_init_fields:
  assumes "Message_init w s r t c i p ts meta rr cid = (m, w')"
  shows "sender m = s" "recipient m = r" "message_type m = t" "content m = c" "priority m = p"
    "requires_response m = rr" "metadata m = (case meta of Omitted \<Rightarrow> Some [] | Given d \<Rightarrow> d)"
    "events w' = events w" "clock w' = clock w"
  using assms
  by (auto simp: Message_init_def post_init_def Let_def uuid4_def split: if_splits prod.splits)

lemma send_response_result:
  assumes "send_response rejects m c t (a, h, w) = (a', h', w')"
  shows "a' = a\<lparr>metrics := (metrics a)\<lparr>messages_sent := messages_sent (metrics a) + 1\<rparr>\<rparr>
     \<and> events w' = events w \<and> clock w' = clock w
     \<and> (\<exists>resp wr ok tm.
          send_message rejects wr h resp = (ok, h', w')
          \<and> sender resp = role (config a) \<and> recipient resp = sender m
          \<and> message_type resp = t \<and> content resp = c
          \<and> metadata resp = Some [(''response_to'', opt_str (id_msg m)),
                                    (''agent_id'', PStr (agent_id a)),
                                    (''processing_time'', PFloat tm)])"
proof -
  obtain u w1 where u: "uuid4 w = (u, w1)" by (cases "uuid4 w")
  obtain resp w2 where r: "Message_init w1 (role (config a)) (sender m) t c (Some u) MEDIUM None
               (Given (Some [(''response_to'', opt_str (id_msg m)),
                             (''agent_id'', PStr (agent_id a)),
                             (''processing_time'', PFloat (time_time w1))]))
               False None = (resp, w2)"
    using prod.exhaust by blast
  obtain ok h2 w3 where s: "send_message rejects w2 h resp = (ok, h2, w3)"
    using prod_cases3 by blast
  have e: "a' = a\<lparr>metrics := (metrics a)\<lparr>messages_sent := messages_sent (metrics a) + 1\<rparr>\<rparr>" "h' = h2" "w' = w3"
    using assms u r s by (simp_all add: send_response_def)
  have w1: "events w1 = events w" "clock w1 = clock w" using u by (auto simp: uuid4_def)
  show ?thesis
    using e s Message_init_fields[OF r] send_message_world[OF s] w1 by auto
qed

lemma record_inbound_fields:
  "config (record_inbound t m a) = config a"
  "state (record_inbound t m a) = state a"
  "message_handlers (record_inbound t m a) = message_handlers a"
  "handle_message (record_inbound t m a) = handle_message a"
  "last_error (record_inbound t m a) = last_error a"
  "error_count (record_inbound t m a) = error_count a"
  "agent_id (record_inbound t m a) = agent_id a"
  "tasks_failed (metrics (record_inbound t m a)) = tasks_failed (metrics a)"
  "tasks_completed (metrics (record_inbound t m a)) = tasks_completed (metrics a)"
  "messages_sent (metrics (record_inbound t m a)) = messages_sent (metrics a)"
  "messages_received (metrics (record_inbound t m a)) = messages_received (metrics a) + 1"
  by (simp_all add: record_inbound_def Let_def)

lemma select_handler_state [simp]: "select_handler (a\<lparr>state := s\<rparr>) m = select_handler a m"
  by (simp add: select_handler_def split: option.splits)

lemma select_handler_record_inbound [simp]:
  "select_handler (record_inbound t m' a) m = select_handler a m"
  by (simp add: select_handler_def record_inbound_fields split: option.splits)

lemma on_failure_result:
  assumes "on_failure rejects m e (a, h, w) = (a', h', w')"
  shows "tasks_failed (metrics a') = tasks_failed (metrics a) + 1
     \<and> tasks_completed (metrics a') = tasks_completed (metrics a)
     \<and> last_error a' = Some e \<and> error_count a' = error_count a + 1
     \<and> config a' = config a \<and> message_handlers a' = message_handlers a
     \<and> handle_message a' = handle_message a
     \<and> state a' = (if error_count a + 1 \<le> retry_count (config a) then IDLE else ERROR)
     \<and> events w' = events (snd (handle_error e (a, w)))
     \<and> (requires_response m \<longrightarrow>
          messages_sent (metrics a') = messages_sent (metrics a) + 1
          \<and> (\<exists>resp wr ok tm.
               send_message rejects wr h resp = (ok, h', w')
               \<and> sender resp = role (config a) \<and> recipient resp = sender m
               \<and> message_type resp = ERROR_REPORT
               \<and> content resp = ''Error processing request: '' @ description e
               \<and> metadata resp = Some [(''response_to'', opt_str (id_msg m)),
                                         (''agent_id'', PStr (agent_id a)),
                                         (''processing_time'', PFloat tm)]))
     \<and> (\<not> requires_response m \<longrightarrow>
          h' = h \<and> messages_sent (metrics a') = messages_sent (metrics a))"
proof (cases "requires_response m")
  case False
  then show ?thesis using assms
    by (auto simp: on_failure_def Let_def handle_error_eq split: if_splits)
next
  case True
  obtain a6 w6 where he: "handle_error e (a\<lparr>metrics := (metrics a)\<lparr>tasks_failed := tasks_failed (metrics a) + 1\<rparr>\<rparr>, w) = (a6, w6)"
    using prod.exhaust by blast
  have sr: "send_response rejects m (''Error processing request: '' @ description e) ERROR_REPORT (a6, h, w6) = (a', h', w')"
    using assms True he by (simp add: on_failure_def)
  have a6: "tasks_failed (metrics a6) = tasks_failed (metrics a) + 1"
    "tasks_completed (metrics a6) = tasks_completed (metrics a)"
    "messages_sent (metrics a6) = messages_sent (metrics a)"
    "last_error a6 = Some e" "error_count a6 = error_count a + 1"
     "config a6 = config a" "message_handlers a6 = message_handlers a"
     "handle_message a6 = handle_message a" "agent_id a6 = agent_id a"
     "state a6 = (if error_count a + 1 \<le> retry_count (config a) then IDLE else ERROR)"
     "events w6 = events (snd (handle_error e (a, w)))"
    using he by (auto simp: handle_error_eq split: if_splits)
  show ?thesis
    using send_response_result[OF sr] a6 True by auto
qed




lemma example_agent_facts:
  "state (fst example_agent) = IDLE" "error_count (fst example_agent) = 0"
  "retry_count (config (fst example_agent)) = 3"
  "select_handler (fst example_agent) v = failing_handler"
  "events (snd (snd example_agent)) = [StateChanged INITIALIZING IDLE]"
  by (simp_all add: example_agent_def start_agent_def BaseAgent_init_def uuid4_def
      change_state_eq example_world_def example_config_def select_handler_def Let_def
      split: prod.splits)




lemma failing_dispatch_from_idle:
  assumes f: "select_handler a m m = Inl e" and c: "caught e" and i: "state a = IDLE"
  shows "\<exists>a' h' w'. handle_message_dispatch rejects m (a, h, w) = Inr (a', h', w')
     \<and> state a' = IDLE \<and> error_count a' = error_count a + 1
     \<and> config a' = config a \<and> select_handler a' = select_handler a
     \<and> events w' = events w @
          (if error_count a + 1 \<le> retry_count (config a)
           then [StateChanged IDLE PROCESSING, StateChanged PROCESSING ERROR,
                 Slept (of_int (error_count a + 1)), StateChanged ERROR IDLE]
           else [StateChanged IDLE PROCESSING, StateChanged PROCESSING ERROR,
                 StateChanged ERROR IDLE])"
proof -
  define a3 where "a3 = record_inbound (time_time w) m a"
  obtain a4 w4 where c1: "change_state PROCESSING (a3, w) = (a4, w4)"
    using prod.exhaust by blast
  have s3: "state a3 = IDLE" by (simp add: a3_def record_inbound_fields i)
  have a4: "a4 = a3\<lparr>state := PROCESSING\<rparr>"
    and w4: "events w4 = events w @ [StateChanged IDLE PROCESSING]"
    using c1 s3 by (auto simp: change_state_eq)
  obtain a7 h7 w7 where o: "on_failure rejects m e (a4, h, w4) = (a7, h7, w7)"
    using prod_cases3 by blast
  have s: "select_handler a4 m m = Inl e"
    using f by (simp add: a4 a3_def)
  obtain a8 w8 where c2: "change_state IDLE (a7, w7) = (a8, w8)"
    using prod.exhaust by blast
  have r: "handle_message_dispatch rejects m (a, h, w) = Inr (a8, h7, w8)"
    unfolding handle_message_dispatch_def Let_def
    using c2 by (simp add: a3_def[symmetric] c1 s c o s3)
  have b: "error_count a4 = error_count a" "config a4 = config a"
    "message_handlers a4 = message_handlers a" "handle_message a4 = handle_message a"
    "state a4 = PROCESSING"
    by (simp_all add: a4 a3_def record_inbound_fields)
  have e7: "events w7 = events w4 @
      (if error_count a + 1 \<le> retry_count (config a)
       then [StateChanged PROCESSING ERROR, Slept (of_int (error_count a + 1)),
             StateChanged ERROR IDLE]
       else [StateChanged PROCESSING ERROR])"
    using on_failure_result[OF o] b by (simp add: handle_error_eq)
  have s7: "state a7 = (if error_count a + 1 \<le> retry_count (config a) then IDLE else ERROR)"
    "error_count a7 = error_count a + 1" "config a7 = config a"
    "message_handlers a7 = message_handlers a" "handle_message a7 = handle_message a"
    using on_failure_result[OF o] b by simp_all
  have a8: "a8 = a7\<lparr>state := IDLE\<rparr>"
    and w8: "events w8 = events w7 @
       (if error_count a + 1 \<le> retry_count (config a) then [] else [StateChanged ERROR IDLE])"
    using c2 s7 by (auto simp: change_state_eq)
  have sh: "select_handler a8 = select_handler a"
    by (rule ext) (simp add: a8 select_handler_def s7 split: option.splits)
  show ?thesis
    unfolding r using s7 e7 w4 w8 sh by (simp add: a8)
qed

text \<open>
  C2, at the scenario of the claim. An agent with a retry budget of 3, idle after its
  start, whose handler raises on every message, receives four messages. Each of the
  first three failures takes it to the error state and, after a sleep of 1, 2 and 3
  seconds, back to idle. The fourth failure takes it to the error state and
  \<open>_handle_error\<close> leaves it there, but the \<open>finally\<close> clause of \<open>_handle_message\<close>
  then restores the state held before the dispatch: the agent ends idle, without any
  sleep, and not in the error state.
\<close>

theorem retry_budget_scenario:
  "\<exists>a h w. handle_messages (\<lambda>m. False) (replicate 4 example_message) example_agent = Inr (a, h, w)
     \<and> state a = IDLE \<and> error_count a = 4 \<and> retry_count (config a) = 3
     \<and> events w =
         [StateChanged INITIALIZING IDLE,
          StateChanged IDLE PROCESSING, StateChanged PROCESSING ERROR, Slept 1, StateChanged ERROR IDLE,
          StateChanged IDLE PROCESSING, StateChanged PROCESSING ERROR, Slept 2, StateChanged ERROR IDLE,
          StateChanged IDLE PROCESSING, StateChanged PROCESSING ERROR, Slept 3, StateChanged ERROR IDLE,
          StateChanged IDLE PROCESSING, StateChanged PROCESSING ERROR, StateChanged ERROR IDLE]"
proof -
  let ?m = example_message
  let ?e = "OfException ''Simulated error''"
  let ?r = "\<lambda>m. False"
  obtain a0 h0 w0 where s0: "example_agent = (a0, h0, w0)" using prod_cases3 by blast
  have f0: "state a0 = IDLE" "error_count a0 = 0" "retry_count (config a0) = 3"
    "\<And>v. select_handler a0 v = failing_handler"
    "events w0 = [StateChanged INITIALIZING IDLE]"
    using example_agent_facts by (simp_all add: s0)
  have c: "caught ?e" by simp
  have h0: "select_handler a0 ?m ?m = Inl ?e" by (simp add: f0 failing_handler_def)
  obtain a1 h1 w1 where s1: "handle_message_dispatch ?r ?m (a0, h0, w0) = Inr (a1, h1, w1)"
    and f1: "state a1 = IDLE" "error_count a1 = 1" "config a1 = config a0"
      "select_handler a1 = select_handler a0"
      "events w1 = events w0 @ [StateChanged IDLE PROCESSING, StateChanged PROCESSING ERROR,
                 Slept 1, StateChanged ERROR IDLE]"
    using failing_dispatch_from_idle[OF h0 c f0(1), of ?r h0 w0] f0 by auto
  have h1: "select_handler a1 ?m ?m = Inl ?e" by (simp add: f1 f0 failing_handler_def)
  obtain a2 h2 w2 where s2: "handle_message_dispatch ?r ?m (a1, h1, w1) = Inr (a2, h2, w2)"
    and f2: "state a2 = IDLE" "error_count a2 = 2" "config a2 = config a1"
      "select_handler a2 = select_handler a1"
      "events w2 = events w1 @ [StateChanged IDLE PROCESSING, StateChanged PROCESSING ERROR,
                 Slept 2, StateChanged ERROR IDLE]"
    using failing_dispatch_from_idle[OF h1 c f1(1), of ?r h1 w1] f1 f0 by auto
  have h2: "select_handler a2 ?m ?m = Inl ?e" by (simp add: f2 f1 f0 failing_handler_def)
  obtain a3 h3 w3 where s3: "handle_message_dispatch ?r ?m (a2, h2, w2) = Inr (a3, h3, w3)"
    and f3: "state a3 = IDLE" "error_count a3 = 3" "config a3 = config a2"
      "select_handler a3 = select_handler a2"
      "events w3 = events w2 @ [StateChanged IDLE PROCESSING, StateChanged PROCESSING ERROR,
                 Slept 3, StateChanged ERROR IDLE]"
    using failing_dispatch_from_idle[OF h2 c f2(1), of ?r h2 w2] f2 f1 f0 by auto
  have h3: "select_handler a3 ?m ?m = Inl ?e" by (simp add: f3 f2 f1 f0 failing_handler_def)
  obtain a4 h4 w4 where s4: "handle_message_dispatch ?r ?m (a3, h3, w3) = Inr (a4, h4, w4)"
    and f4: "state a4 = IDLE" "error_count a4 = 4" "config a4 = config a3"
      "events w4 = events w3 @ [StateChanged IDLE PROCESSING, StateChanged PROCESSING ERROR,
                 StateChanged ERROR IDLE]"
    using failing_dispatch_from_idle[OF h3 c f3(1), of ?r h3 w3] f3 f2 f1 f0 by auto
  have "handle_messages ?r (replicate 4 ?m) example_agent = Inr (a4, h4, w4)"
    by (simp add: eval_nat_numeral s0 s1 s2 s3 s4 attempt_def)
  then show ?thesis using f4 f3 f2 f1 f0 by simp
qed

section \<open>Retrieval from the in-memory store\<close>

lemma all_memory_types_complete: "t \<in> set all_memory_types"
  by (cases t) (simp_all add: all_memory_types_def)

lemma index_distinct_type: "index_distinct s \<Longrightarrow> distinct (type_index s t)"
  using all_memory_types_complete[of t] by (simp add: index_distinct_def list_all_iff)

lemma index_distinct_tag:
  assumes "index_distinct s" and m: "map_of (tag_index s) tag = Some l"
  shows "distinct l"
proof -
  have "(tag, l) \<in> set (tag_index s)" using map_of_SomeD[OF m] .
  then have "tag \<in> set (map fst (tag_index s))" by force
  moreover have "list_all (\<lambda>tag. case map_of (tag_index s) tag of None \<Rightarrow> True | Some l \<Rightarrow> distinct l)
          (map fst (tag_index s))"
    using assms(1) by (simp add: index_distinct_def)
  ultimately have "case map_of (tag_index s) tag of None \<Rightarrow> True | Some l \<Rightarrow> distinct l"
    unfolding list_all_iff by blast
  then show ?thesis by (simp add: m)
qed

lemma index_distinctI:
  assumes t: "\<And>t. distinct (type_index s t)"
    and g: "\<And>tag l. map_of (tag_index s) tag = Some l \<Longrightarrow> distinct l"
  shows "index_distinct s"
proof -
  have "case map_of (tag_index s) tag of None \<Rightarrow> True | Some l \<Rightarrow> distinct l" for tag
  proof (cases "map_of (tag_index s) tag")
    case None
    then show ?thesis by simp
  next
    case (Some l)
    have "distinct l" using Some by (rule g)
    then show ?thesis by (simp add: Some)
  qed
  then have "list_all (\<lambda>tag. case map_of (tag_index s) tag of None \<Rightarrow> True | Some l \<Rightarrow> distinct l)
          (map fst (tag_index s))"
    unfolding list_all_iff by blast
  moreover have "list_all (\<lambda>t. distinct (type_index s t)) all_memory_types"
    unfolding list_all_iff using t by blast
  ultimately show ?thesis by (simp add: index_distinct_def)
qed

lemma unlistedI:
  assumes "\<And>tag l. tag \<in> set ts \<Longrightarrow> map_of idx tag = Some l \<Longrightarrow> i \<notin> set l"
  shows "unlisted i ts idx"
proof -
  have "case map_of idx tag of None \<Rightarrow> True | Some l \<Rightarrow> i \<notin> set l" if "tag \<in> set ts" for tag
  proof (cases "map_of idx tag")
    case None
    then show ?thesis by simp
  next
    case (Some l)
    have "i \<notin> set l" using that Some by (rule assms)
    then show ?thesis by (simp add: Some)
  qed
  then show ?thesis unfolding unlisted_def list_all_iff by blast
qed

lemma remove_from_tag_lookup:
  "map_of (remove_from_tag i tag idx) t =
     (if t = tag then (case map_of idx tag of None \<Rightarrow> None
                        | Some l \<Rightarrow> if i \<in> set l then (if remove1 i l = [] then None else Some (remove1 i l)) else Some l)
      else map_of idx t)"
  by (cases "map_of idx tag") (simp_all add: remove_from_tag_def Let_def update_conv' delete_conv')

lemma remove_from_tag_distinct:
  assumes d: "\<And>tag l. map_of idx tag = Some l \<Longrightarrow> distinct l"
    and m: "map_of (remove_from_tag i t idx) tag = Some l"
  shows "distinct l"
proof (cases "tag = t")
  case False
  then have "map_of idx tag = Some l" using m by (simp add: remove_from_tag_lookup)
  then show ?thesis by (rule d)
next
  case True
  show ?thesis
  proof (cases "map_of idx t")
    case None
    then show ?thesis using m True by (simp add: remove_from_tag_lookup)
  next
    case (Some l0)
    have "distinct l0" using Some by (rule d)
    then show ?thesis using m True Some
      by (auto simp: remove_from_tag_lookup split: if_splits)
  qed
qed

lemma remove_from_tag_unlists:
  assumes d: "\<And>tag l. map_of idx tag = Some l \<Longrightarrow> distinct l"
    and m: "map_of (remove_from_tag i t idx) t = Some l"
  shows "i \<notin> set l"
proof (cases "map_of idx t")
  case None
  then show ?thesis using m by (simp add: remove_from_tag_lookup)
next
  case (Some l0)
  have "distinct l0" using Some by (rule d)
  then show ?thesis using m Some
    by (auto simp: remove_from_tag_lookup split: if_splits)
qed

lemma remove_from_tag_keeps_unlisted:
  assumes u: "\<And>l. map_of idx t = Some l \<Longrightarrow> i \<notin> set l"
    and m: "map_of (remove_from_tag i tag idx) t = Some l"
  shows "i \<notin> set l"
proof (cases "t = tag")
  case False
  then have "map_of idx t = Some l" using m by (simp add: remove_from_tag_lookup)
  then show ?thesis by (rule u)
next
  case True
  show ?thesis
  proof (cases "map_of idx t")
    case None
    then show ?thesis using m True by (simp add: remove_from_tag_lookup)
  next
    case (Some l0)
    have "i \<notin> set l0" using Some by (rule u)
    then show ?thesis using m True Some
      by (auto simp: remove_from_tag_lookup split: if_splits)
  qed
qed

lemma delete_tags_distinct:
  assumes "\<And>tag l. map_of idx tag = Some l \<Longrightarrow> distinct l"
    and "map_of (delete_tags i ts idx) tag = Some l"
  shows "distinct l"
  using assms
proof (induction ts arbitrary: idx)
  case Nil
  from Nil(2) have "map_of idx tag = Some l" by simp
  then show ?case by (rule Nil(1))
next
  case (Cons t ts)
  have m: "map_of (delete_tags i ts (remove_from_tag i t idx)) tag = Some l"
    using Cons.prems(2) by simp
  show ?case
    by (rule Cons.IH[OF _ m]) (rule remove_from_tag_distinct[OF Cons.prems(1)])
qed

lemma delete_tags_keeps_unlisted:
  assumes "\<And>l. map_of idx t = Some l \<Longrightarrow> i \<notin> set l"
    and "map_of (delete_tags i ts idx) t = Some l"
  shows "i \<notin> set l"
  using assms
proof (induction ts arbitrary: idx)
  case Nil
  from Nil(2) have "map_of idx t = Some l" by simp
  then show ?case by (rule Nil(1))
next
  case (Cons x ts)
  have m: "map_of (delete_tags i ts (remove_from_tag i x idx)) t = Some l"
    using Cons.prems(2) by simp
  show ?case
    by (rule Cons.IH[OF _ m]) (rule remove_from_tag_keeps_unlisted[OF Cons.prems(1)])
qed

lemma delete_tags_unlists:
  assumes "\<And>tag l. map_of idx tag = Some l \<Longrightarrow> distinct l"
    and "t \<in> set ts"
    and "map_of (delete_tags i ts idx) t = Some l"
  shows "i \<notin> set l"
  using assms
proof (induction ts arbitrary: idx)
  case Nil
  from Nil(2) show ?case by simp
next
  case (Cons x ts)
  have m: "map_of (delete_tags i ts (remove_from_tag i x idx)) t = Some l"
    using Cons.prems(3) by simp
  show ?case
  proof (cases "t = x")
    case True
    show ?thesis
    proof (rule delete_tags_keeps_unlisted[OF _ m])
      fix l' assume "map_of (remove_from_tag i x idx) t = Some l'"
      then have e: "map_of (remove_from_tag i x idx) x = Some l'" using True by simp
      show "i \<notin> set l'"
        using remove_from_tag_unlists[of idx i x l'] Cons.prems(1) e by blast
    qed
  next
    case False
    then have ts: "t \<in> set ts" using Cons.prems(2) by simp
    show ?thesis
      by (rule Cons.IH[OF _ ts m]) (rule remove_from_tag_distinct[OF Cons.prems(1)])
  qed
qed

lemma delete_found:
  assumes "map_of (memories s) i = Some entry"
  shows "delete s i =
     (True,
      s\<lparr>memories := AList.delete i (memories s),
        type_index := (if i \<in> set (type_index s (memory_type entry))
                       then (type_index s)(memory_type entry :=
                                             remove1 i (type_index s (memory_type entry)))
                       else type_index s),
        tag_index := delete_tags i (tags entry) (tag_index s)\<rparr>)"
  using assms by (simp add: delete_def)

lemma delete_result:
  assumes f: "map_of (memories s) i = Some entry" and d: "index_distinct s"
  shows "fst (delete s i) = True
    \<and> map_of (memories (snd (delete s i))) i = None
    \<and> i \<notin> set (type_index (snd (delete s i)) (memory_type entry))
    \<and> unlisted i (tags entry) (tag_index (snd (delete s i)))
    \<and> index_distinct (snd (delete s i))"
proof -
  have dt: "distinct (type_index s t)" for t using d by (rule index_distinct_type)
  have dg: "distinct l" if "map_of (tag_index s) tag = Some l" for tag l
    using d that by (rule index_distinct_tag)
  have 1: "map_of (memories (snd (delete s i))) i = None"
    by (simp add: delete_found[OF f] delete_conv')
  have 2: "i \<notin> set (type_index (snd (delete s i)) (memory_type entry))"
    using dt[of "memory_type entry"] by (simp add: delete_found[OF f])
  have 3: "unlisted i (tags entry) (tag_index (snd (delete s i)))"
  proof (rule unlistedI)
    fix tag l assume "tag \<in> set (tags entry)"
      and "map_of (tag_index (snd (delete s i))) tag = Some l"
    then have m: "tag \<in> set (tags entry)"
      "map_of (delete_tags i (tags entry) (tag_index s)) tag = Some l"
      by (simp_all add: delete_found[OF f])
    show "i \<notin> set l"
      using delete_tags_unlists[of "tag_index s" tag "tags entry" i l] dg m by blast
  qed
  have 4: "index_distinct (snd (delete s i))"
  proof (rule index_distinctI)
    fix t show "distinct (type_index (snd (delete s i)) t)"
      using dt[of t] dt[of "memory_type entry"] by (simp add: delete_found[OF f])
  next
    fix tag l assume "map_of (tag_index (snd (delete s i))) tag = Some l"
    then have m: "map_of (delete_tags i (tags entry) (tag_index s)) tag = Some l"
      by (simp add: delete_found[OF f])
    show "distinct l"
      using delete_tags_distinct[of "tag_index s" i "tags entry" tag l] dg m by blast
  qed
  show ?thesis using 1 2 3 4 by (simp add: delete_found[OF f])
qed

lemma add_to_tag_lookup:
  "map_of (add_to_tag i tag idx) t =
     (if t = tag then (case map_of idx tag of None \<Rightarrow> Some [i]
                        | Some l \<Rightarrow> if i \<in> set l then Some l else Some (l @ [i]))
      else map_of idx t)"
  by (cases "map_of idx tag") (simp_all add: add_to_tag_def Let_def update_conv')

lemma add_to_tag_distinct:
  assumes d: "\<And>tag l. map_of idx tag = Some l \<Longrightarrow> distinct l"
    and m: "map_of (add_to_tag i t idx) tag = Some l"
  shows "distinct l"
proof (cases "tag = t")
  case False
  then have "map_of idx tag = Some l" using m by (simp add: add_to_tag_lookup)
  then show ?thesis by (rule d)
next
  case True
  show ?thesis
  proof (cases "map_of idx t")
    case None
    then show ?thesis using m True by (auto simp: add_to_tag_lookup)
  next
    case (Some l0)
    have "distinct l0" using Some by (rule d)
    then show ?thesis using m True Some
      by (auto simp: add_to_tag_lookup split: if_splits)
  qed
qed

lemma store_tags_distinct:
  assumes "\<And>tag l. map_of idx tag = Some l \<Longrightarrow> distinct l"
    and "map_of (store_tags i ts idx) tag = Some l"
  shows "distinct l"
  using assms
proof (induction ts arbitrary: idx)
  case Nil
  from Nil(2) have "map_of idx tag = Some l" by simp
  then show ?case by (rule Nil(1))
next
  case (Cons t ts)
  have m: "map_of (store_tags i ts (add_to_tag i t idx)) tag = Some l"
    using Cons.prems(2) by simp
  show ?case
    by (rule Cons.IH[OF _ m]) (rule add_to_tag_distinct[OF Cons.prems(1)])
qed

lemma index_distinct_init: "index_distinct InMemoryStore_init"
  by (simp add: index_distinct_def InMemoryStore_init_def list_all_iff)

lemma index_distinct_store:
  assumes d: "index_distinct s"
  shows "index_distinct (snd (store s e))"
proof (rule index_distinctI)
  fix t show "distinct (type_index (snd (store s e)) t)"
    using index_distinct_type[OF d, of t] index_distinct_type[OF d, of "memory_type e"]
    by (simp add: store_def Let_def)
next
  fix tag l assume "map_of (tag_index (snd (store s e))) tag = Some l"
  then have m: "map_of (store_tags (id_entry e) (tags e) (tag_index s)) tag = Some l"
    by (simp add: store_def Let_def)
  show "distinct l"
    using store_tags_distinct[of "tag_index s" "id_entry e" "tags e" tag l]
      index_distinct_tag[OF d] m by blast
qed

lemma is_expired_mono: "t1 \<le> t2 \<Longrightarrow> is_expired t1 e \<Longrightarrow> is_expired t2 e"
  by (cases "expires_at e") (simp_all add: is_expired_def)

lemma retrieve_result:
  "(map_of (memories s) i = None \<longrightarrow> retrieve t1 t2 s i = (None, s))
   \<and> (\<forall>entry. map_of (memories s) i = Some entry \<and> \<not> is_expired t1 entry \<longrightarrow>
        retrieve t1 t2 s i =
          (Some (entry\<lparr>access_count := access_count entry + 1, last_accessed := t2\<rparr>),
           s\<lparr>memories := AList.update i
                           (entry\<lparr>access_count := access_count entry + 1, last_accessed := t2\<rparr>)
                           (memories s)\<rparr>))
   \<and> (\<forall>entry. map_of (memories s) i = Some entry \<and> is_expired t1 entry \<and> t1 \<le> t2 \<longrightarrow>
        retrieve t1 t2 s i = (None, snd (delete s i)))"
  using is_expired_mono[of t1 t2]
  by (auto simp: retrieve_def Let_def access_def)

lemma retrieve_behaviour:
  "(map_of (memories s) i = None \<longrightarrow> retrieve t1 t2 s i = (None, s))
   \<and> (map_of (memories s) i = Some entry \<and> \<not> is_expired t1 entry \<longrightarrow>
        retrieve t1 t2 s i =
          (Some (entry\<lparr>access_count := access_count entry + 1, last_accessed := t2\<rparr>),
           s\<lparr>memories := AList.update i
                           (entry\<lparr>access_count := access_count entry + 1, last_accessed := t2\<rparr>)
                           (memories s)\<rparr>))
   \<and> (map_of (memories s) i = Some entry \<and> is_expired t1 entry \<and> t1 \<le> t2 \<and> index_distinct s
        \<longrightarrow>
        retrieve t1 t2 s i = (None, snd (delete s i))
        \<and> map_of (memories (snd (retrieve t1 t2 s i))) i = None
        \<and> i \<notin> set (type_index (snd (retrieve t1 t2 s i)) (memory_type entry))
        \<and> unlisted i (tags entry) (tag_index (snd (retrieve t1 t2 s i))))
   \<and> (fst (retrieve t1 t2 s i) = Some e \<longrightarrow> \<not> is_expired t1 e)"
proof -
  have 1: "retrieve t1 t2 s i = (None, snd (delete s i))
        \<and> map_of (memories (snd (retrieve t1 t2 s i))) i = None
        \<and> i \<notin> set (type_index (snd (retrieve t1 t2 s i)) (memory_type entry))
        \<and> unlisted i (tags entry) (tag_index (snd (retrieve t1 t2 s i)))"
    if f: "map_of (memories s) i = Some entry" and x: "is_expired t1 entry" and t: "t1 \<le> t2"
      and d: "index_distinct s"
  proof -
    have r: "retrieve t1 t2 s i = (None, snd (delete s i))"
      using retrieve_result[of s i t1 t2] f x t by blast
    show ?thesis using delete_result[OF f d] by (simp add: r)
  qed
  have 2: "\<not> is_expired t1 e" if g: "fst (retrieve t1 t2 s i) = Some e"
  proof (cases "map_of (memories s) i")
    case None
    then show ?thesis using g by (simp add: retrieve_def)
  next
    case (Some en)
    show ?thesis
    proof (cases "is_expired t1 en")
      case True
      then show ?thesis using g Some by (simp add: retrieve_def split: if_splits)
    next
      case False
      then have "e = access t2 en" using g Some by (simp add: retrieve_def Let_def)
      then show ?thesis using False by (simp add: is_expired_def access_def)
    qed
  qed
  show ?thesis using retrieve_result[of s i t1 t2] 1 2 by blast
qed


text \<open>
  C10, at a store in which an id was stored twice. \<open>store\<close> overwrites the entry in
  the main map but leaves the id in the index lists of the first entry's type and
  tags. The entry now stored under the id is expired: \<open>retrieve\<close> returns nothing and
  deletes it, the other entry is kept, and the id has left the main map and the index
  lists of the type and tag of the entry deleted. It is still listed in the type index
  under the first type and in the tag index under the first tags.
\<close>

theorem retrieve_leaves_stale_index:
  "index_distinct example_store_again
   \<and> map_of (memories example_store_again) ''mem-1'' = Some example_entry_again
   \<and> is_expired 60 example_entry_again
   \<and> fst (retrieve 60 61 example_store_again ''mem-1'') = None
   \<and> memories (snd (retrieve 60 61 example_store_again ''mem-1''))
       = [(''mem-2'', example_other_entry)]
   \<and> type_index (snd (retrieve 60 61 example_store_again ''mem-1'')) TASK = []
   \<and> type_index (snd (retrieve 60 61 example_store_again ''mem-1'')) CONVERSATION
       = [''mem-1'', ''mem-2'']
   \<and> tag_index (snd (retrieve 60 61 example_store_again ''mem-1''))
       = [(''user'', [''mem-1'', ''mem-2'']), (''testing'', [''mem-1'', ''mem-2''])]"
proof -
  have d: "index_distinct example_store_again"
    unfolding example_store_again_def
    by (intro index_distinct_store index_distinct_init)
  have s: "example_store_again =
      \<lparr>memories = [(''mem-1'', example_entry_again), (''mem-2'', example_other_entry)],
       type_index = (\<lambda>t. [])(CONVERSATION := [''mem-1'', ''mem-2''], TASK := [''mem-1'']),
       tag_index = [(''user'', [''mem-1'', ''mem-2'']), (''testing'', [''mem-1'', ''mem-2'']),
                    (''task'', [''mem-1''])]\<rparr>"
    by (simp add: example_store_again_def store_def Let_def add_to_tag_def
        InMemoryStore_init_def example_entry_def example_other_entry_def
        example_entry_again_def fun_upd_twist)
  have e: "memory_type example_entry_again = TASK" "tags example_entry_again = [''task'']"
    "expires_at example_entry_again = Some 50"
    by (simp_all add: example_entry_again_def example_entry_def)
  have x: "is_expired 60 example_entry_again" "is_expired 61 example_entry_again"
    by (simp_all add: is_expired_def e)
  have r: "retrieve 60 61 example_store_again ''mem-1'' =
      (None,
       \<lparr>memories = [(''mem-2'', example_other_entry)],
        type_index = (\<lambda>t. [])(CONVERSATION := [''mem-1'', ''mem-2''], TASK := []),
        tag_index = [(''user'', [''mem-1'', ''mem-2'']), (''testing'', [''mem-1'', ''mem-2''])]\<rparr>)"
    by (simp add: s retrieve_def delete_def remove_from_tag_def x e Let_def)
  have m: "map_of (memories example_store_again) ''mem-1'' = Some example_entry_again"
    by (simp add: s)
  show ?thesis using d m x(1) by (simp add: r)
qed

end
